theory Spec2Isabelle
  imports Main
begin

text \<open>
  The filter manager of the provider: the class \<^verbatim>\<open>FilterMgr\<close> that emulates the
  filter methods of the Ethereum JSON-RPC interface (\<^verbatim>\<open>eth_newFilter\<close>,
  \<^verbatim>\<open>eth_newBlockFilter\<close>, \<^verbatim>\<open>eth_newPendingTransactionFilter\<close>,
  \<^verbatim>\<open>eth_uninstallFilter\<close>, \<^verbatim>\<open>eth_getFilterChanges\<close>, \<^verbatim>\<open>eth_getFilterLogs\<close>) on top
  of a node that only answers single requests. The embedding follows the source method by
  method; the node and the host's timers are the two collaborators it is given.
\<close>

section \<open>JavaScript values that flow through the filter manager\<close>

text \<open>
  Block numbers, filter ids and cursors are dynamically typed in the source: a value is
  \<^verbatim>\<open>undefined\<close>, a string (\<^verbatim>\<open>"latest"\<close>, \<^verbatim>\<open>"0x64"\<close>), an integral number or
  \<^verbatim>\<open>NaN\<close>. Numbers are modelled as unbounded integers (heights stay far below
  \<^verbatim>\<open>2^53\<close>, where a double is exact and prints as plain decimal digits), strings as
  ASCII character lists.
\<close>

datatype jsval = Undefined | Str string | Num int | NaN

text \<open>An \<^verbatim>\<open>Error\<close> carries its message; the two built-in error classes that the
  code can raise are kept apart.\<close>

datatype error = Error string | TypeError | RangeError

text \<open>ToBoolean: what \<^verbatim>\<open>!x\<close> and \<^verbatim>\<open>x && y\<close> test.\<close>

fun truthy :: "jsval \<Rightarrow> bool" where
  "truthy Undefined = False"
| "truthy (Str s) = (s \<noteq> [])"
| "truthy (Num n) = (n \<noteq> 0)"
| "truthy NaN = False"

subsection \<open>Number to string\<close>

definition digit_char :: "nat \<Rightarrow> char" where
  "digit_char d = (''0123456789abcdef'') ! d"

function digits :: "nat \<Rightarrow> nat \<Rightarrow> string" where
  "digits b n = (if b < 2 \<or> n < b then [digit_char n] else digits b (n div b) @ [digit_char (n mod b)])"
  by pat_completeness auto
termination
  by (relation "measure snd") auto

declare digits.simps [simp del]

text \<open>\<^verbatim>\<open>n.toString(radix)\<close> for an integral number: a minus sign, then the digits.\<close>

definition num_to_string :: "nat \<Rightarrow> int \<Rightarrow> string" where
  "num_to_string b n = (if n < 0 then CHR ''-'' # digits b (nat (- n)) else digits b (nat n))"

text \<open>ToString, as \<^verbatim>\<open>Number.parseInt\<close> applies it to its first argument.\<close>

fun to_string :: "jsval \<Rightarrow> string" where
  "to_string Undefined = ''undefined''"
| "to_string (Str s) = s"
| "to_string (Num n) = num_to_string 10 n"
| "to_string NaN = ''NaN''"

text \<open>\<^verbatim>\<open>x.toString(16)\<close>: a string ignores the radix.\<close>

fun toString16 :: "jsval \<Rightarrow> string" where
  "toString16 (Num n) = num_to_string 16 n"
| "toString16 v = to_string v"

subsection \<open>\<^verbatim>\<open>Number.parseInt(s, 16)\<close>\<close>

text \<open>White space, within ASCII: space, tab, line feed, vertical tab, form feed,
  carriage return.\<close>

definition is_ws :: "char \<Rightarrow> bool" where
  "is_ws c = (c = CHR '' '' \<or> c = CHR 0x09 \<or> c = CHR 0x0A \<or> c = CHR 0x0B \<or> c = CHR 0x0C \<or> c = CHR 0x0D)"

definition hex_digit :: "char \<Rightarrow> nat option" where
  "hex_digit c =
     (let k = of_char c :: nat in
      if 48 \<le> k \<and> k \<le> 57 then Some (k - 48)
      else if 97 \<le> k \<and> k \<le> 102 then Some (k - 87)
      else if 65 \<le> k \<and> k \<le> 70 then Some (k - 55)
      else None)"

definition is_hex :: "char \<Rightarrow> bool" where
  "is_hex c = (hex_digit c \<noteq> None)"

definition hex_value :: "string \<Rightarrow> nat" where
  "hex_value z = foldl (\<lambda>a c. 16 * a + the (hex_digit c)) 0 z"

text \<open>
  The steps of the language's \<^verbatim>\<open>parseInt\<close> with radix 16: skip leading white space,
  read a sign, strip one \<^verbatim>\<open>0x\<close>/\<^verbatim>\<open>0X\<close>, take the longest run of hex digits; no digit at
  all gives \<^verbatim>\<open>NaN\<close>, and whatever follows the digits is ignored.
\<close>

definition parseInt16 :: "string \<Rightarrow> jsval" where
  "parseInt16 s =
     (let s1 = dropWhile is_ws s;
          sign = (if take 1 s1 = ''-'' then - 1 else 1 :: int);
          s2 = (if take 1 s1 = ''-'' \<or> take 1 s1 = ''+'' then drop 1 s1 else s1);
          s3 = (if take 2 s2 = ''0x'' \<or> take 2 s2 = ''0X'' then drop 2 s2 else s2);
          z = takeWhile is_hex s3
      in if z = [] then NaN else Num (sign * int (hex_value z)))"

subsection \<open>The three helpers at the top of the module\<close>

text \<open>\<^verbatim>\<open>hexToInt = (hex) => hex && Number.parseInt(hex, 16)\<close>: a falsy argument is
  returned as it is.\<close>

definition hexToInt :: "jsval \<Rightarrow> jsval" where
  "hexToInt hex = (if truthy hex then parseInt16 (to_string hex) else hex)"

text \<open>\<^verbatim>\<open>intToHex = (int) => int && `0x${int.toString(16)}`\<close>.\<close>

definition intToHex :: "jsval \<Rightarrow> jsval" where
  "intToHex i = (if truthy i then Str (''0x'' @ toString16 i) else i)"

text \<open>
  ToNumber for the operands of a comparison or a subtraction; \<open>None\<close> stands for
  \<^verbatim>\<open>NaN\<close>. The only string that reaches one is the empty string (\<open>hexToInt\<close> parses
  every other string, see \<open>hexToInt_Str\<close> below), and ToNumber of it is 0.
\<close>

fun to_number :: "jsval \<Rightarrow> int option" where
  "to_number Undefined = None"
| "to_number (Str s) = (if s = [] then Some 0 else None)"
| "to_number (Num n) = Some n"
| "to_number NaN = None"

text \<open>\<^verbatim>\<open>a > b\<close> and \<^verbatim>\<open>a >= b\<close>: false as soon as one side is \<^verbatim>\<open>NaN\<close>.\<close>

definition js_gt :: "jsval \<Rightarrow> jsval \<Rightarrow> bool" where
  "js_gt a b = (case (to_number a, to_number b) of (Some x, Some y) \<Rightarrow> x > y | _ \<Rightarrow> False)"

definition js_ge :: "jsval \<Rightarrow> jsval \<Rightarrow> bool" where
  "js_ge a b = (case (to_number a, to_number b) of (Some x, Some y) \<Rightarrow> x \<ge> y | _ \<Rightarrow> False)"

text \<open>
  \<^verbatim>\<open>intRange(from, to)\<close>: empty when \<^verbatim>\<open>from >= to\<close>, else
  \<^verbatim>\<open>new Array(to - from).fill().map((_, i) => i + from)\<close>, the heights
  \<^verbatim>\<open>from, from + 1, ..., to - 1\<close>. \<^verbatim>\<open>new Array(NaN)\<close> throws a RangeError (so does
  a length of \<^verbatim>\<open>2^32\<close> or more, which no pair of heights reaches).
\<close>

definition intRange :: "jsval \<Rightarrow> jsval \<Rightarrow> error + int list" where
  "intRange from to =
     (if js_ge from to then Inr []
      else case (to_number to, to_number from) of
             (Some t, Some f) \<Rightarrow> Inr (map (\<lambda>i. int i + f) [0 ..< nat (t - f)])
           | _ \<Rightarrow> Inl RangeError)"

section \<open>Data model\<close>

text \<open>A topic slot: a wildcard, one value or a list of alternatives. The manager passes
  topics through untouched.\<close>

datatype topic = TopicAny | Topic string | TopicOr "string list"

text \<open>\<^verbatim>\<open>params.address\<close> of a raw \<^verbatim>\<open>eth_newFilter\<close> request.\<close>

datatype addr_param = NoAddress | OneAddress string | Addresses "string list"

record raw_params =
  p_fromBlock :: jsval
  p_toBlock :: jsval
  p_address :: addr_param
  p_topics :: "topic list option"

text \<open>The object \<^verbatim>\<open>_normalizeFilter\<close> builds; \<open>None\<close> is \<^verbatim>\<open>null\<close>.\<close>

record criteria =
  c_fromBlock :: jsval
  c_toBlock :: jsval
  c_addresses :: "string list option"
  c_topics :: "topic list"

text \<open>\<^verbatim>\<open>filter.options\<close> is that object for a log filter and a bare string
  (\<^verbatim>\<open>'latest'\<close>, \<^verbatim>\<open>'pending'\<close>) for the other two kinds.\<close>

datatype options = LogOptions criteria | StrOptions string

datatype filter_type = Log | Block | Tx

record filter_rec =
  ftype :: filter_type
  foptions :: options
  fid :: int

text \<open>Property reads on \<^verbatim>\<open>filter.options\<close>; a string has none of the four
  properties, so each read gives \<^verbatim>\<open>undefined\<close>.\<close>

fun opt_fromBlock :: "options \<Rightarrow> jsval" where
  "opt_fromBlock (LogOptions c) = c_fromBlock c"
| "opt_fromBlock (StrOptions s) = Undefined"

fun opt_toBlock :: "options \<Rightarrow> jsval" where
  "opt_toBlock (LogOptions c) = c_toBlock c"
| "opt_toBlock (StrOptions s) = Undefined"

fun opt_addresses :: "options \<Rightarrow> string list option" where
  "opt_addresses (LogOptions c) = c_addresses c"
| "opt_addresses (StrOptions s) = None"

fun opt_topics :: "options \<Rightarrow> topic list option" where
  "opt_topics (LogOptions c) = Some (c_topics c)"
| "opt_topics (StrOptions s) = None"

text \<open>
  The object handed to \<^verbatim>\<open>rpc.getFilterLogs\<close>. The poll path copies the stored
  options, so the address list travels under the key \<^verbatim>\<open>addresses\<close>; the replay path
  sets the key \<^verbatim>\<open>address\<close>, and only when the list is not \<^verbatim>\<open>null\<close>. \<open>None\<close> is an
  absent, \<^verbatim>\<open>null\<close> or \<^verbatim>\<open>undefined\<close> property.
\<close>

record log_query =
  q_fromBlock :: jsval
  q_toBlock :: jsval
  q_address :: "string list option"
  q_addresses :: "string list option"
  q_topics :: "topic list option"

record block =
  hash :: string
  transactions :: "string list"

type_synonym log = string

text \<open>
  The node behind \<^verbatim>\<open>this.rpc\<close>, as one operation sees it: each request settles with
  an error or a value. \<^verbatim>\<open>eth_getBlockByNumber\<close> answers \<^verbatim>\<open>null\<close> (\<open>None\<close>) for a
  height it does not have.
\<close>

record rpc =
  rpc_getBlockNumber :: "error + string"
  rpc_getBlockByNumber :: "jsval \<Rightarrow> error + block option"
  rpc_getFilterLogs :: "log_query \<Rightarrow> error + log list"

text \<open>The requests an operation sends, in the order it issues them.\<close>

datatype call = CallGetBlockNumber | CallGetBlockByNumber jsval | CallGetFilterLogs log_query

text \<open>What a poll resolves with: an array of hashes or of per-block transaction lists,
  or the node's answer to the log query.\<close>

datatype item = Hash string | Transactions "string list"

datatype answer = Arr "item list" | Json "log list"

text \<open>
  The manager's three maps, keyed by JavaScript values, and the host's timer queue:
  \<open>pending\<close> lists the armed timeouts as (handle, due time, filter id captured by the
  callback); a handle leaves the queue when it is cleared or fires. \<open>timers\<close> is the
  manager's own map from filter id to the handle it last got from \<^verbatim>\<open>setTimeout\<close>.
  Time is a virtual clock in milliseconds.
\<close>

record state =
  filters :: "jsval \<rightharpoonup> filter_rec"
  blockNumbers :: "jsval \<rightharpoonup> string"
  timers :: "jsval \<rightharpoonup> nat"
  pending :: "(nat \<times> nat \<times> jsval) list"
  next_handle :: nat
  now :: nat

definition init :: state where
  "init = \<lparr>filters = Map.empty, blockNumbers = Map.empty, timers = Map.empty,
            pending = [], next_handle = 1, now = 0\<rparr>"

definition timeoutInterval :: nat where
  "timeoutInterval = 5 * 60 * 1000"

section \<open>Timers\<close>

text \<open>The host's \<^verbatim>\<open>clearTimeout\<close> and \<^verbatim>\<open>setTimeout\<close>; handles are positive, as in
  a browser.\<close>

definition clearTimeout :: "nat \<Rightarrow> state \<Rightarrow> state" where
  "clearTimeout h s = s\<lparr>pending := filter (\<lambda>(h', due, k). h' \<noteq> h) (pending s)\<rparr>"

definition setTimeout :: "jsval \<Rightarrow> nat \<Rightarrow> state \<Rightarrow> nat \<times> state" where
  "setTimeout k ms s =
     (next_handle s,
      s\<lparr>pending := pending s @ [(next_handle s, now s + ms, k)],
        next_handle := Suc (next_handle s)\<rparr>)"

text \<open>\<^verbatim>\<open>_clearTimer\<close> cancels the stored handle; the entry of \<open>timers\<close> stays.\<close>

definition clearTimer :: "jsval \<Rightarrow> state \<Rightarrow> state" where
  "clearTimer filterId s =
     (case timers s filterId of
        None \<Rightarrow> s
      | Some oldTimer \<Rightarrow> if oldTimer \<noteq> 0 then clearTimeout oldTimer s else s)"

definition setupTimer :: "jsval \<Rightarrow> state \<Rightarrow> state" where
  "setupTimer filterId s =
     (let (newTimer, s') = setTimeout filterId timeoutInterval (clearTimer filterId s)
      in s'\<lparr>timers := (timers s')(filterId \<mapsto> newTimer)\<rparr>)"

text \<open>The callback armed by \<^verbatim>\<open>_setupTimer\<close>.\<close>

definition expire :: "jsval \<Rightarrow> state \<Rightarrow> state" where
  "expire filterId s =
     s\<lparr>filters := (filters s)(filterId := None),
       blockNumbers := (blockNumbers s)(filterId := None)\<rparr>"

text \<open>Time passes: every timeout that has come due fires once, in queue order, and
  leaves the queue.\<close>

definition is_due :: "nat \<Rightarrow> nat \<times> nat \<times> jsval \<Rightarrow> bool" where
  "is_due t e = (fst (snd e) \<le> t)"

definition advance :: "nat \<Rightarrow> state \<Rightarrow> state" where
  "advance d s =
     (let t = now s + d;
          s' = fold (\<lambda>e. expire (snd (snd e))) (filter (is_due t) (pending s)) s
      in s'\<lparr>pending := filter (\<lambda>e. \<not> is_due t e) (pending s), now := t\<rparr>)"

section \<open>The filter manager\<close>

text \<open>
  Each method runs to completion on the state it is given (the event loop is single
  threaded, and the manager is the only writer of its maps). It returns how its promise
  settles (\<open>Inl\<close> a rejection or a thrown error, \<open>Inr\<close> the value), the state it
  leaves and the requests it sent to the node. Method names drop the leading underscore.
  The only writes a method makes after waiting for the node are writes of
  \<open>blockNumbers\<close>; \<open>filters\<close>, \<open>timers\<close> and the timer queue change before any
  request is sent.
\<close>

type_synonym 'a outcome = "(error + 'a) \<times> state \<times> call list"

subsection \<open>Normalisation\<close>

definition normalizeFilterBlock :: "jsval \<Rightarrow> error + jsval" where
  "normalizeFilterBlock blockNumber =
     (case blockNumber of
        Undefined \<Rightarrow> Inr (Str ''latest'')
      | Str b \<Rightarrow>
          if b = ''latest'' \<or> b = ''pending'' then Inr (Str ''latest'')
          else if b = ''earliest'' then Inr (Num 0)
          else if take 2 b = ''0x'' then Inr (hexToInt (Str b))
          else Inl (Error (''Invalid block option: '' @ b))
      | _ \<Rightarrow> Inl TypeError)"

text \<open>The last case is a number passed as a block option: it has no
  \<^verbatim>\<open>startsWith\<close>, so the call throws a TypeError.\<close>

definition normalizeFilter :: "raw_params \<Rightarrow> error + criteria" where
  "normalizeFilter params =
     (case normalizeFilterBlock (p_fromBlock params) of
        Inl e \<Rightarrow> Inl e
      | Inr fromBlock \<Rightarrow>
          (case normalizeFilterBlock (p_toBlock params) of
             Inl e \<Rightarrow> Inl e
           | Inr toBlock \<Rightarrow>
               Inr \<lparr>c_fromBlock = fromBlock, c_toBlock = toBlock,
                    c_addresses = (case p_address params of
                                     NoAddress \<Rightarrow> None
                                   | Addresses as \<Rightarrow> Some as
                                   | OneAddress a \<Rightarrow> Some [a]),
                    c_topics = (case p_topics params of Some ts \<Rightarrow> ts | None \<Rightarrow> [])\<rparr>))"

definition normalizeParamBlock :: "jsval \<Rightarrow> jsval" where
  "normalizeParamBlock blockNumber =
     (if blockNumber = Str ''latest'' then blockNumber else intToHex blockNumber)"

definition normalizeParams :: "options \<Rightarrow> log_query" where
  "normalizeParams opts =
     \<lparr>q_fromBlock = normalizeParamBlock (opt_fromBlock opts),
      q_toBlock = normalizeParamBlock (opt_toBlock opts),
      q_address = opt_addresses opts,
      q_addresses = None,
      q_topics = opt_topics opts\<rparr>"

subsection \<open>Installing and removing\<close>

text \<open>
  \<^verbatim>\<open>const count = this.filters.keys.length\<close> reads the \<^verbatim>\<open>length\<close> of the method
  \<^verbatim>\<open>Map.prototype.keys\<close>, a function of no formal parameter: it is 0 whatever the map
  holds (the number of entries would be \<^verbatim>\<open>this.filters.size\<close>).
\<close>

definition keys_length :: "(jsval \<rightharpoonup> filter_rec) \<Rightarrow> int" where
  "keys_length m = 0"

definition installFilter :: "filter_type \<Rightarrow> options \<Rightarrow> state \<Rightarrow> int \<times> state" where
  "installFilter ty opts s =
     (let count = keys_length (filters s);
          filterId = count + 1;
          entry = \<lparr>ftype = ty, foptions = opts, fid = filterId\<rparr>;
          s1 = s\<lparr>filters := (filters s)(Num filterId \<mapsto> entry)\<rparr>
      in (filterId, setupTimer (Num filterId) s1))"

text \<open>The shared tail of the three creators: ask for the head, store it as the cursor,
  answer the id in hex. A failed request leaves what \<open>installFilter\<close> did.\<close>

definition created :: "int \<times> state \<Rightarrow> rpc \<Rightarrow> jsval outcome" where
  "created inst node =
     (let (filterId, s) = inst in
      case rpc_getBlockNumber node of
        Inl e \<Rightarrow> (Inl e, s, [CallGetBlockNumber])
      | Inr blockNumber \<Rightarrow>
          (Inr (intToHex (Num filterId)),
           s\<lparr>blockNumbers := (blockNumbers s)(Num filterId \<mapsto> blockNumber)\<rparr>,
           [CallGetBlockNumber]))"

definition newFilter :: "raw_params \<Rightarrow> rpc \<Rightarrow> state \<Rightarrow> jsval outcome" where
  "newFilter params node s =
     (case normalizeFilter params of
        Inl e \<Rightarrow> (Inl e, s, [])
      | Inr opts \<Rightarrow> created (installFilter Log (LogOptions opts) s) node)"

definition newBlockFilter :: "rpc \<Rightarrow> state \<Rightarrow> jsval outcome" where
  "newBlockFilter node s = created (installFilter Block (StrOptions ''latest'') s) node"

definition newPendingTransactionFilter :: "rpc \<Rightarrow> state \<Rightarrow> jsval outcome" where
  "newPendingTransactionFilter node s = created (installFilter Tx (StrOptions ''pending'') s) node"

definition uninstallFilter :: "jsval \<Rightarrow> state \<Rightarrow> bool \<times> state" where
  "uninstallFilter filterId s =
     (let k = hexToInt filterId;
          s1 = s\<lparr>filters := (filters s)(k := None)\<rparr>;
          s2 = s1\<lparr>blockNumbers := (blockNumbers s1)(k := None)\<rparr>
      in (True, clearTimer k s2))"

subsection \<open>Polling\<close>

text \<open>\<^verbatim>\<open>Promise.all\<close>: the values in order, or a rejection as soon as one request
  fails (here the first failed one in the order of the array).\<close>

fun promise_all :: "(error + 'a) list \<Rightarrow> error + 'a list" where
  "promise_all [] = Inr []"
| "promise_all (Inl e # ps) = Inl e"
| "promise_all (Inr v # ps) = (case promise_all ps of Inl e \<Rightarrow> Inl e | Inr vs \<Rightarrow> Inr (v # vs))"

definition getBlocksInRange ::
  "jsval \<Rightarrow> jsval \<Rightarrow> rpc \<Rightarrow> (error + block option list) \<times> call list" where
  "getBlocksInRange fromBlock toBlock node =
     (if js_ge fromBlock toBlock then (Inr [], [])
      else case intRange fromBlock toBlock of
             Inl e \<Rightarrow> (Inl e, [])
           | Inr hs \<Rightarrow>
               (let numbers = map (\<lambda>h. intToHex (Num h)) hs
                in (promise_all (map (rpc_getBlockByNumber node) numbers),
                    map CallGetBlockByNumber numbers)))"

definition getBlocksForFilter :: "jsval \<Rightarrow> rpc \<Rightarrow> state \<Rightarrow> block option list outcome" where
  "getBlocksForFilter filterId node s =
     (case blockNumbers s filterId of
        None \<Rightarrow> (Inl (Error ''no filter found''), s, [])
      | Some fromBlock \<Rightarrow>
          if fromBlock = [] then (Inl (Error ''no filter found''), s, [])
          else (case rpc_getBlockNumber node of
                  Inl e \<Rightarrow> (Inl e, s, [CallGetBlockNumber])
                | Inr toBlock \<Rightarrow>
                    (let from = hexToInt (Str fromBlock);
                         to = hexToInt (Str toBlock);
                         s' = (if js_gt to from
                               then s\<lparr>blockNumbers := (blockNumbers s)(filterId \<mapsto> toBlock)\<rparr>
                               else s);
                         (r, calls) = getBlocksInRange from to node
                     in (r, s', CallGetBlockNumber # calls))))"

text \<open>\<^verbatim>\<open>blocks.map((block) => block.hash)\<close>: reading a property of a \<^verbatim>\<open>null\<close>
  block throws a TypeError.\<close>

fun map_blocks :: "(block \<Rightarrow> item) \<Rightarrow> block option list \<Rightarrow> error + item list" where
  "map_blocks f [] = Inr []"
| "map_blocks f (None # bs) = Inl TypeError"
| "map_blocks f (Some b # bs) = (case map_blocks f bs of Inl e \<Rightarrow> Inl e | Inr is \<Rightarrow> Inr (f b # is))"

definition then_map :: "(block \<Rightarrow> item) \<Rightarrow> block option list outcome \<Rightarrow> answer outcome" where
  "then_map f out =
     (let (r, s, calls) = out in
      case r of
        Inl e \<Rightarrow> (Inl e, s, calls)
      | Inr blocks \<Rightarrow>
          (case map_blocks f blocks of
             Inl e \<Rightarrow> (Inl e, s, calls)
           | Inr is \<Rightarrow> (Inr (Arr is), s, calls)))"

definition getBlockFilterChanges :: "jsval \<Rightarrow> rpc \<Rightarrow> state \<Rightarrow> answer outcome" where
  "getBlockFilterChanges filterId node s =
     then_map (\<lambda>block. Hash (hash block)) (getBlocksForFilter filterId node s)"

definition getTxFilterChanges :: "jsval \<Rightarrow> rpc \<Rightarrow> state \<Rightarrow> answer outcome" where
  "getTxFilterChanges filterId node s =
     then_map (\<lambda>block. Transactions (transactions block)) (getBlocksForFilter filterId node s)"

text \<open>ToBoolean of \<^verbatim>\<open>filter.options\<close>: an object is truthy, a string when not empty.\<close>

fun opts_truthy :: "options \<Rightarrow> bool" where
  "opts_truthy (LogOptions c) = True"
| "opts_truthy (StrOptions s) = (s \<noteq> [])"

text \<open>The log path. \<^verbatim>\<open>this.filters.get(filterId).options\<close> throws when the id has no
  entry. The query is \<^verbatim>\<open>Object.assign({}, filter, {fromBlock, toBlock})\<close>: the stored
  options with the two heights replaced. No line of this method writes the cursor.\<close>

definition getLogFilterChanges :: "jsval \<Rightarrow> rpc \<Rightarrow> state \<Rightarrow> answer outcome" where
  "getLogFilterChanges filterId node s =
     (case filters s filterId of
        None \<Rightarrow> (Inl TypeError, s, [])
      | Some entry \<Rightarrow>
          (let opts = foptions entry in
           case blockNumbers s filterId of
             None \<Rightarrow> (Inl (Error ''_getLogFilterChanges: no filter found''), s, [])
           | Some fromBlock \<Rightarrow>
               if \<not> opts_truthy opts \<or> fromBlock = []
               then (Inl (Error ''_getLogFilterChanges: no filter found''), s, [])
               else (case rpc_getBlockNumber node of
                       Inl e \<Rightarrow> (Inl e, s, [CallGetBlockNumber])
                     | Inr blockNumber \<Rightarrow>
                         (let toBlock = (if opt_toBlock opts = Str ''latest''
                                         then Str blockNumber else opt_toBlock opts);
                              from = hexToInt (Str fromBlock);
                              to = hexToInt toBlock
                          in if js_gt from to then (Inr (Arr []), s, [CallGetBlockNumber])
                             else (let q = \<lparr>q_fromBlock = Str fromBlock, q_toBlock = toBlock,
                                             q_address = None,
                                             q_addresses = opt_addresses opts,
                                             q_topics = opt_topics opts\<rparr>
                                   in (map_sum id Json (rpc_getFilterLogs node q), s,
                                       [CallGetBlockNumber, CallGetFilterLogs q]))))))"

text \<open>The dispatch on \<^verbatim>\<open>filter.type\<close>, with the stored \<^verbatim>\<open>filter.id\<close> passed on. The
  three creators store no other type, so the \<^verbatim>\<open>default\<close> branch of the source's
  \<^verbatim>\<open>switch\<close> has no counterpart.\<close>

definition getFilterChanges :: "jsval \<Rightarrow> rpc \<Rightarrow> state \<Rightarrow> answer outcome" where
  "getFilterChanges filterId node s =
     (case filters s (hexToInt filterId) of
        None \<Rightarrow> (Inl (Error ''getFilterChanges: no filter found''), s, [])
      | Some entry \<Rightarrow>
          (case ftype entry of
             Log \<Rightarrow> getLogFilterChanges (Num (fid entry)) node s
           | Block \<Rightarrow> getBlockFilterChanges (Num (fid entry)) node s
           | Tx \<Rightarrow> getTxFilterChanges (Num (fid entry)) node s))"

definition getFilterLogs :: "jsval \<Rightarrow> rpc \<Rightarrow> state \<Rightarrow> answer outcome" where
  "getFilterLogs filterId node s =
     (case filters s (hexToInt filterId) of
        None \<Rightarrow> (Inl (Error ''no filter found''), s, [])
      | Some entry \<Rightarrow>
          (let q = normalizeParams (foptions entry)
           in (map_sum id Json (rpc_getFilterLogs node q), s, [CallGetFilterLogs q])))"

section \<open>Runs of the manager\<close>

text \<open>One event is a call of a public method (with the node as it answers during that
  call) or the passing of some milliseconds.\<close>

datatype event =
    NewFilter raw_params rpc
  | NewBlockFilter rpc
  | NewPendingTransactionFilter rpc
  | UninstallFilter jsval
  | GetFilterChanges jsval rpc
  | GetFilterLogs jsval rpc
  | Advance nat

fun step :: "event \<Rightarrow> state \<Rightarrow> state" where
  "step (NewFilter params node) s = fst (snd (newFilter params node s))"
| "step (NewBlockFilter node) s = fst (snd (newBlockFilter node s))"
| "step (NewPendingTransactionFilter node) s = fst (snd (newPendingTransactionFilter node s))"
| "step (UninstallFilter filterId) s = snd (uninstallFilter filterId s)"
| "step (GetFilterChanges filterId node) s = fst (snd (getFilterChanges filterId node s))"
| "step (GetFilterLogs filterId node) s = fst (snd (getFilterLogs filterId node s))"
| "step (Advance d) s = advance d s"

definition run :: "event list \<Rightarrow> state \<Rightarrow> state" where
  "run evs s = fold step evs s"

section \<open>Predicates on states and runs\<close>

text \<open>
  A filter id has an armed timer when the handle that \<open>timers\<close> stores for it is still
  in the host's queue, that is, was neither cleared nor fired.
\<close>

definition has_armed_timer :: "state \<Rightarrow> jsval \<Rightarrow> bool" where
  "has_armed_timer s k =
     (case timers s k of None \<Rightarrow> False | Some h \<Rightarrow> h \<in> fst ` set (pending s))"

definition armed :: "state \<Rightarrow> jsval set" where
  "armed s = {k. has_armed_timer s k}"

text \<open>The bookkeeping every run from \<open>init\<close> keeps: a queued timeout is the one
  \<open>timers\<close> records for its filter id, handles are positive and handed out once, an id
  has at most one queued timeout, due after now and within one idle window from now, and
  the ids with a queued timeout are the ids of the registry.\<close>

definition wf :: "state \<Rightarrow> bool" where
  "wf s \<longleftrightarrow>
     list_all (\<lambda>e. timers s (snd (snd e)) = Some (fst e)) (pending s) \<and>
     list_all (\<lambda>e. now s < fst (snd e) \<and> fst (snd e) \<le> now s + timeoutInterval) (pending s) \<and>
     0 < next_handle s \<and>
     (\<forall>k h. timers s k = Some h \<longrightarrow> 0 < h \<and> h < next_handle s) \<and>
     (\<forall>k k' h. timers s k = Some h \<and> timers s k' = Some h \<longrightarrow> k = k') \<and>
     distinct (map (snd \<circ> snd) (pending s)) \<and>
     dom (filters s) = (snd \<circ> snd) ` set (pending s)"

text \<open>Events that only poll, replay or let time pass, and the time a run lets pass.\<close>

fun is_poll :: "event \<Rightarrow> bool" where
  "is_poll (GetFilterChanges i node) = True"
| "is_poll (GetFilterLogs i node) = True"
| "is_poll (Advance d) = True"
| "is_poll ev = False"

fun elapsed :: "event list \<Rightarrow> nat" where
  "elapsed [] = 0"
| "elapsed (Advance d # evs) = d + elapsed evs"
| "elapsed (ev # evs) = elapsed evs"

section \<open>A sample node\<close>

text \<open>A node whose head is \<open>head\<close>, that serves every height with a block named after
  the requested number, and answers every log query with one record.\<close>

definition sample_block :: "jsval \<Rightarrow> block" where
  "sample_block number = \<lparr>hash = ''hash-'' @ to_string number, transactions = [''tx-'' @ to_string number]\<rparr>"

definition sample_node :: "string \<Rightarrow> rpc" where
  "sample_node head =
     \<lparr>rpc_getBlockNumber = Inr head,
      rpc_getBlockByNumber = (\<lambda>number. Inr (Some (sample_block number))),
      rpc_getFilterLogs = (\<lambda>q. Inr [''log''])\<rparr>"

text \<open>The same node with its \<^verbatim>\<open>eth_blockNumber\<close> request failing, and with one height
  it cannot serve.\<close>

definition node_down :: rpc where
  "node_down = (sample_node [])\<lparr>rpc_getBlockNumber := Inl (Error ''rpc error'')\<rparr>"

definition node_missing :: "string \<Rightarrow> jsval \<Rightarrow> rpc" where
  "node_missing head bad =
     (sample_node head)\<lparr>rpc_getBlockByNumber :=
        (\<lambda>number. if number = bad then Inl (Error ''rpc error'') else Inr (Some (sample_block number)))\<rparr>"

section \<open>Facts about the maps and the timer queue\<close>

lemma clearTimeout_fields [simp]:
  "filters (clearTimeout h s) = filters s"
  "blockNumbers (clearTimeout h s) = blockNumbers s"
  "timers (clearTimeout h s) = timers s"
  "next_handle (clearTimeout h s) = next_handle s"
  "now (clearTimeout h s) = now s"
  by (simp_all add: clearTimeout_def)

lemma clearTimer_fields [simp]:
  "filters (clearTimer k s) = filters s"
  "blockNumbers (clearTimer k s) = blockNumbers s"
  "timers (clearTimer k s) = timers s"
  "next_handle (clearTimer k s) = next_handle s"
  "now (clearTimer k s) = now s"
  by (simp_all add: clearTimer_def split: option.split)

lemma pending_clearTimer:
  "pending (clearTimer k s) =
     (case timers s k of
        None \<Rightarrow> pending s
      | Some h \<Rightarrow> if h \<noteq> 0 then filter (\<lambda>e. fst e \<noteq> h) (pending s) else pending s)"
  by (simp add: clearTimer_def clearTimeout_def case_prod_unfold split: option.split)

lemma setupTimer_fields [simp]:
  "filters (setupTimer k s) = filters s"
  "blockNumbers (setupTimer k s) = blockNumbers s"
  "timers (setupTimer k s) = (timers s)(k \<mapsto> next_handle s)"
  "next_handle (setupTimer k s) = Suc (next_handle s)"
  "now (setupTimer k s) = now s"
  "pending (setupTimer k s) = pending (clearTimer k s) @ [(next_handle s, now s + timeoutInterval, k)]"
  by (simp_all add: setupTimer_def setTimeout_def)

lemma installFilter_id [simp]: "fst (installFilter ty opts s) = 1"
  by (simp add: installFilter_def keys_length_def Let_def)

lemma installFilter_fields [simp]:
  "filters (snd (installFilter ty opts s)) = (filters s)(Num 1 \<mapsto> \<lparr>ftype = ty, foptions = opts, fid = 1\<rparr>)"
  "blockNumbers (snd (installFilter ty opts s)) = blockNumbers s"
  "timers (snd (installFilter ty opts s)) = (timers s)(Num 1 \<mapsto> next_handle s)"
  "next_handle (snd (installFilter ty opts s)) = Suc (next_handle s)"
  "now (snd (installFilter ty opts s)) = now s"
  "pending (snd (installFilter ty opts s)) = pending (clearTimer (Num 1) s) @ [(next_handle s, now s + timeoutInterval, Num 1)]"
  by (simp_all add: installFilter_def keys_length_def Let_def pending_clearTimer split: option.split)

lemma created_fields [simp]:
  "filters (fst (snd (created inst node))) = filters (snd inst)"
  "timers (fst (snd (created inst node))) = timers (snd inst)"
  "next_handle (fst (snd (created inst node))) = next_handle (snd inst)"
  "now (fst (snd (created inst node))) = now (snd inst)"
  "pending (fst (snd (created inst node))) = pending (snd inst)"
  by (simp_all add: created_def case_prod_unfold split: sum.split)

lemma blockNumbers_created:
  "blockNumbers (fst (snd (created inst node))) =
     (case rpc_getBlockNumber node of
        Inl e \<Rightarrow> blockNumbers (snd inst)
      | Inr bn \<Rightarrow> (blockNumbers (snd inst))(Num (fst inst) \<mapsto> bn))"
  by (simp add: created_def case_prod_unfold split: sum.split)

lemma result_created:
  "fst (created inst node) =
     (case rpc_getBlockNumber node of Inl e \<Rightarrow> Inl e | Inr bn \<Rightarrow> Inr (intToHex (Num (fst inst))))"
  by (simp add: created_def case_prod_unfold split: sum.split)

lemma calls_created [simp]: "snd (snd (created inst node)) = [CallGetBlockNumber]"
  by (simp add: created_def case_prod_unfold split: sum.split)

lemma uninstallFilter_fields [simp]:
  "filters (snd (uninstallFilter i s)) = (filters s)(hexToInt i := None)"
  "blockNumbers (snd (uninstallFilter i s)) = (blockNumbers s)(hexToInt i := None)"
  "timers (snd (uninstallFilter i s)) = timers s"
  "next_handle (snd (uninstallFilter i s)) = next_handle s"
  "now (snd (uninstallFilter i s)) = now s"
  by (simp_all add: uninstallFilter_def Let_def)

lemma pending_uninstallFilter:
  "pending (snd (uninstallFilter i s)) =
     (case timers s (hexToInt i) of
        None \<Rightarrow> pending s
      | Some h \<Rightarrow> if h \<noteq> 0 then filter (\<lambda>e. fst e \<noteq> h) (pending s) else pending s)"
  by (simp add: uninstallFilter_def Let_def pending_clearTimer split: option.split)

lemma fold_expire_fields [simp]:
  "timers (fold (\<lambda>e. expire (snd (snd e))) es s) = timers s"
  "pending (fold (\<lambda>e. expire (snd (snd e))) es s) = pending s"
  "next_handle (fold (\<lambda>e. expire (snd (snd e))) es s) = next_handle s"
  "now (fold (\<lambda>e. expire (snd (snd e))) es s) = now s"
  by (induction es arbitrary: s; simp add: expire_def)+

lemma filters_fold_expire:
  "filters (fold (\<lambda>e. expire (snd (snd e))) es s) k =
     (if k \<in> (snd \<circ> snd) ` set es then None else filters s k)"
  by (induction es arbitrary: s) (auto simp: expire_def)

lemma blockNumbers_fold_expire:
  "blockNumbers (fold (\<lambda>e. expire (snd (snd e))) es s) k =
     (if k \<in> (snd \<circ> snd) ` set es then None else blockNumbers s k)"
  by (induction es arbitrary: s) (auto simp: expire_def)

lemma advance_fields [simp]:
  "timers (advance d s) = timers s"
  "next_handle (advance d s) = next_handle s"
  "now (advance d s) = now s + d"
  "pending (advance d s) = filter (\<lambda>e. \<not> is_due (now s + d) e) (pending s)"
  by (simp_all add: advance_def Let_def)

lemma filters_advance:
  "filters (advance d s) k =
     (if k \<in> (snd \<circ> snd) ` set (filter (is_due (now s + d)) (pending s)) then None else filters s k)"
  by (simp add: advance_def Let_def filters_fold_expire)

lemma blockNumbers_advance:
  "blockNumbers (advance d s) k =
     (if k \<in> (snd \<circ> snd) ` set (filter (is_due (now s + d)) (pending s)) then None else blockNumbers s k)"
  by (simp add: advance_def Let_def blockNumbers_fold_expire)

lemma then_map_state [simp]:
  "fst (snd (then_map f out)) = fst (snd out)"
  "snd (snd (then_map f out)) = snd (snd out)"
  by (simp_all add: then_map_def case_prod_unfold split: sum.split)

lemma getBlocksForFilter_fields [simp]:
  "filters (fst (snd (getBlocksForFilter k node s))) = filters s"
  "timers (fst (snd (getBlocksForFilter k node s))) = timers s"
  "pending (fst (snd (getBlocksForFilter k node s))) = pending s"
  "next_handle (fst (snd (getBlocksForFilter k node s))) = next_handle s"
  "now (fst (snd (getBlocksForFilter k node s))) = now s"
  by (simp_all add: getBlocksForFilter_def Let_def case_prod_unfold split: option.split sum.split)

lemma getLogFilterChanges_state [simp]:
  "fst (snd (getLogFilterChanges k node s)) = s"
  by (simp add: getLogFilterChanges_def Let_def split: option.split sum.split)

lemma getFilterLogs_state [simp]:
  "fst (snd (getFilterLogs i node s)) = s"
  by (simp add: getFilterLogs_def Let_def split: option.split)

lemma getFilterChanges_fields [simp]:
  "filters (fst (snd (getFilterChanges i node s))) = filters s"
  "timers (fst (snd (getFilterChanges i node s))) = timers s"
  "pending (fst (snd (getFilterChanges i node s))) = pending s"
  "next_handle (fst (snd (getFilterChanges i node s))) = next_handle s"
  "now (fst (snd (getFilterChanges i node s))) = now s"
  by (simp_all add: getFilterChanges_def getBlockFilterChanges_def getTxFilterChanges_def
        split: option.split filter_type.split)

lemma newFilter_rejected:
  "normalizeFilter params = Inl e \<Longrightarrow> newFilter params node s = (Inl e, s, [])"
  by (simp add: newFilter_def)

lemma newFilter_accepted:
  "normalizeFilter params = Inr opts \<Longrightarrow>
     newFilter params node s = created (installFilter Log (LogOptions opts) s) node"
  by (simp add: newFilter_def)

text \<open>\<open>wf\<close> reads five fields only.\<close>

lemma wf_cong:
  assumes "filters s' = filters s" "timers s' = timers s" "pending s' = pending s"
    "next_handle s' = next_handle s" "now s' = now s"
  shows "wf s' = wf s"
  by (simp add: wf_def assms)

lemma wf_init: "wf init"
  by (simp add: wf_def init_def)

lemma wf_pending_clearTimer:
  assumes "wf s"
  shows "pending (clearTimer k s) = filter (\<lambda>e. snd (snd e) \<noteq> k) (pending s)"
proof (cases "timers s k")
  case None
  have "\<forall>e\<in>set (pending s). snd (snd e) \<noteq> k"
    using assms None by (auto simp: wf_def list_all_iff)
  then have "filter (\<lambda>e. snd (snd e) \<noteq> k) (pending s) = pending s"
    by (simp add: filter_id_conv)
  with None show ?thesis by (simp add: pending_clearTimer)
next
  case (Some h)
  have pos: "h \<noteq> 0" using assms Some by (auto simp: wf_def)
  have "\<forall>e\<in>set (pending s). (fst e \<noteq> h) = (snd (snd e) \<noteq> k)"
  proof
    fix e assume e: "e \<in> set (pending s)"
    then have t: "timers s (snd (snd e)) = Some (fst e)"
      using assms by (auto simp: wf_def list_all_iff)
    show "(fst e \<noteq> h) = (snd (snd e) \<noteq> k)"
    proof
      assume "fst e \<noteq> h" with t Some show "snd (snd e) \<noteq> k" by auto
    next
      assume ne: "snd (snd e) \<noteq> k"
      show "fst e \<noteq> h"
      proof
        assume "fst e = h"
        with t Some have "timers s (snd (snd e)) = Some h \<and> timers s k = Some h" by simp
        with assms have "snd (snd e) = k" unfolding wf_def by blast
        with ne show False by simp
      qed
    qed
  qed
  then have "filter (\<lambda>e. fst e \<noteq> h) (pending s) = filter (\<lambda>e. snd (snd e) \<noteq> k) (pending s)"
    by (simp cong: filter_cong)
  with Some pos show ?thesis by (simp add: pending_clearTimer)
qed

section \<open>The bookkeeping invariant\<close>

lemma wf_facts:
  assumes "wf s"
  shows "\<forall>e\<in>set (pending s). timers s (snd (snd e)) = Some (fst e)"
    and "\<forall>e\<in>set (pending s). now s < fst (snd e) \<and> fst (snd e) \<le> now s + timeoutInterval"
    and "0 < next_handle s"
    and "\<And>k h. timers s k = Some h \<Longrightarrow> 0 < h \<and> h < next_handle s"
    and "\<And>k k' h. timers s k = Some h \<Longrightarrow> timers s k' = Some h \<Longrightarrow> k = k'"
    and "distinct (map (snd \<circ> snd) (pending s))"
    and "dom (filters s) = (snd \<circ> snd) ` set (pending s)"
  using assms unfolding wf_def list_all_iff by blast+

lemma wfI:
  assumes "\<forall>e\<in>set (pending s). timers s (snd (snd e)) = Some (fst e)"
    and "\<forall>e\<in>set (pending s). now s < fst (snd e) \<and> fst (snd e) \<le> now s + timeoutInterval"
    and "0 < next_handle s"
    and "\<And>k h. timers s k = Some h \<Longrightarrow> 0 < h \<and> h < next_handle s"
    and "\<And>k k' h. timers s k = Some h \<Longrightarrow> timers s k' = Some h \<Longrightarrow> k = k'"
    and "distinct (map (snd \<circ> snd) (pending s))"
    and "dom (filters s) = (snd \<circ> snd) ` set (pending s)"
  shows "wf s"
  unfolding wf_def list_all_iff using assms by blast

lemma wf_installFilter:
  assumes "wf s"
  shows "wf (snd (installFilter ty opts s))"
proof (rule wfI)
  let ?s = "snd (installFilter ty opts s)"
  let ?old = "filter (\<lambda>e. snd (snd e) \<noteq> Num 1) (pending s)"
  note f = wf_facts [OF assms]
  have p: "pending (clearTimer (Num 1) s) = ?old"
    by (rule wf_pending_clearTimer [OF assms])
  show "\<forall>e\<in>set (pending ?s). timers ?s (snd (snd e)) = Some (fst e)"
    using f(1) by (simp add: p)
  show "\<forall>e\<in>set (pending ?s). now ?s < fst (snd e) \<and> fst (snd e) \<le> now ?s + timeoutInterval"
    using f(2) by (simp add: p timeoutInterval_def)
  show "0 < next_handle ?s" by simp
  show "0 < h \<and> h < next_handle ?s" if "timers ?s k = Some h" for k h
  proof (cases "k = Num 1")
    case True
    with that f(3) show ?thesis by simp
  next
    case False
    with that have "timers s k = Some h" by simp
    from f(4) [OF this] show ?thesis by simp
  qed
  show "k = k'" if a: "timers ?s k = Some h" and b: "timers ?s k' = Some h" for k k' h
  proof (rule ccontr)
    assume ne: "k \<noteq> k'"
    show False
    proof (cases "k = Num 1")
      case True
      with a have "h = next_handle s" by simp
      with b ne True have "timers s k' = Some (next_handle s)" by (simp split: if_splits)
      from f(4) [OF this] show False by simp
    next
      case False
      with a have k: "timers s k = Some h" by simp
      show False
      proof (cases "k' = Num 1")
        case True
        with b have "h = next_handle s" by simp
        with f(4) [OF k] show False by simp
      next
        case False
        with b have "timers s k' = Some h" by simp
        with k ne f(5) show False by blast
      qed
    qed
  qed
  show "distinct (map (snd \<circ> snd) (pending ?s))"
    using f(6) by (auto simp: p distinct_map_filter)
  show "dom (filters ?s) = (snd \<circ> snd) ` set (pending ?s)"
    using f(7) by (auto simp: p)
qed

lemma wf_created:
  "wf (snd inst) \<Longrightarrow> wf (fst (snd (created inst node)))"
  by (simp add: wf_cong [of "fst (snd (created inst node))" "snd inst"])

lemma wf_uninstallFilter:
  assumes "wf s"
  shows "wf (snd (uninstallFilter i s))"
proof (rule wfI)
  let ?s = "snd (uninstallFilter i s)"
  let ?k = "hexToInt i"
  note f = wf_facts [OF assms]
  have "pending ?s = pending (clearTimer ?k s)"
    by (simp add: pending_uninstallFilter pending_clearTimer)
  then have p: "pending ?s = filter (\<lambda>e. snd (snd e) \<noteq> ?k) (pending s)"
    by (simp add: wf_pending_clearTimer [OF assms])
  show "\<forall>e\<in>set (pending ?s). timers ?s (snd (snd e)) = Some (fst e)"
    using f(1) by (simp add: p)
  show "\<forall>e\<in>set (pending ?s). now ?s < fst (snd e) \<and> fst (snd e) \<le> now ?s + timeoutInterval"
    using f(2) by (simp add: p timeoutInterval_def)
  show "0 < next_handle ?s" using f(3) by simp
  show "0 < h \<and> h < next_handle ?s" if "timers ?s k = Some h" for k h
    using that f(4) [of k h] by simp
  show "k = k'" if "timers ?s k = Some h" and "timers ?s k' = Some h" for k k' h
    using that f(5) [of k h k'] by simp
  show "distinct (map (snd \<circ> snd) (pending ?s))"
    using f(6) by (simp add: p distinct_map_filter)
  show "dom (filters ?s) = (snd \<circ> snd) ` set (pending ?s)"
    using f(7) by (auto simp: p)
qed

lemma wf_advance:
  assumes "wf s"
  shows "wf (advance d s)"
proof (rule wfI)
  let ?s = "advance d s"
  let ?t = "now s + d"
  note f = wf_facts [OF assms]
  have ids: "e = e'" if "e \<in> set (pending s)" "e' \<in> set (pending s)"
    "snd (snd e) = snd (snd e')" for e e'
    using f(6) that by (auto simp: distinct_map inj_on_def)
  show "\<forall>e\<in>set (pending ?s). timers ?s (snd (snd e)) = Some (fst e)"
    using f(1) by simp
  show "\<forall>e\<in>set (pending ?s). now ?s < fst (snd e) \<and> fst (snd e) \<le> now ?s + timeoutInterval"
    using f(2) by (auto simp: is_due_def)
  show "0 < next_handle ?s" using f(3) by simp
  show "0 < h \<and> h < next_handle ?s" if "timers ?s k = Some h" for k h
    using that f(4) [of k h] by simp
  show "k = k'" if "timers ?s k = Some h" and "timers ?s k' = Some h" for k k' h
    using that f(5) [of k h k'] by simp
  show "distinct (map (snd \<circ> snd) (pending ?s))"
    using f(6) by (simp add: distinct_map_filter)
  show "dom (filters ?s) = (snd \<circ> snd) ` set (pending ?s)"
  proof (rule set_eqI)
    fix k
    let ?due = "(snd \<circ> snd) ` set (filter (is_due ?t) (pending s))"
    show "k \<in> dom (filters ?s) \<longleftrightarrow> k \<in> (snd \<circ> snd) ` set (pending ?s)"
    proof
      assume "k \<in> dom (filters ?s)"
      then have live: "filters ?s k \<noteq> None" by (simp add: dom_def)
      have nd: "k \<notin> ?due"
      proof
        assume "k \<in> ?due"
        then have "filters ?s k = None" by (simp only: filters_advance if_True)
        with live show False by simp
      qed
      then have "filters ?s k = filters s k" by (simp only: filters_advance if_False)
      with live have "k \<in> dom (filters s)" by (simp add: dom_def)
      with f(7) obtain e where e: "e \<in> set (pending s)" "snd (snd e) = k" by auto
      have "\<not> is_due ?t e"
      proof
        assume "is_due ?t e"
        with e have "e \<in> set (filter (is_due ?t) (pending s))" by simp
        then have "(snd \<circ> snd) e \<in> ?due" by (rule imageI)
        with e nd show False by simp
      qed
      with e have "e \<in> set (pending ?s)" by simp
      then have "(snd \<circ> snd) e \<in> (snd \<circ> snd) ` set (pending ?s)" by (rule imageI)
      with e show "k \<in> (snd \<circ> snd) ` set (pending ?s)" by simp
    next
      assume "k \<in> (snd \<circ> snd) ` set (pending ?s)"
      then obtain e where e: "e \<in> set (pending s)" "\<not> is_due ?t e" "snd (snd e) = k"
        by auto
      have nd: "k \<notin> ?due"
      proof
        assume "k \<in> ?due"
        then obtain e' where e': "e' \<in> set (pending s)" "is_due ?t e'" "snd (snd e') = k"
          by auto
        with e ids [of e e'] show False by auto
      qed
      then have eq: "filters ?s k = filters s k" by (simp only: filters_advance if_False)
      have "(snd \<circ> snd) e \<in> (snd \<circ> snd) ` set (pending s)"
        using e(1) by (rule imageI)
      with f(7) e have "k \<in> dom (filters s)" by simp
      with eq show "k \<in> dom (filters ?s)" by (simp add: dom_def)
    qed
  qed
qed

lemma wf_step: "wf s \<Longrightarrow> wf (step ev s)"
proof (cases ev)
  case (NewFilter params node)
  assume "wf s"
  then show ?thesis
    by (cases "normalizeFilter params")
       (simp_all add: NewFilter newFilter_rejected newFilter_accepted wf_created wf_installFilter)
next
  case (GetFilterChanges i node)
  assume "wf s"
  then show ?thesis
    by (simp add: GetFilterChanges wf_cong [of "fst (snd (getFilterChanges i node s))" s])
qed (simp_all add: newBlockFilter_def newPendingTransactionFilter_def wf_created
       wf_installFilter wf_uninstallFilter wf_advance)

lemma wf_run: "wf s \<Longrightarrow> wf (run evs s)"
  unfolding run_def by (induction evs arbitrary: s) (simp_all add: wf_step)

lemma wf_armed:
  assumes "wf s"
  shows "armed s = (snd \<circ> snd) ` set (pending s)"
proof (rule set_eqI)
  fix k
  show "k \<in> armed s \<longleftrightarrow> k \<in> (snd \<circ> snd) ` set (pending s)"
  proof
    assume "k \<in> armed s"
    then obtain h e where h: "timers s k = Some h" and e: "e \<in> set (pending s)" "fst e = h"
      by (auto simp: armed_def has_armed_timer_def split: option.splits)
    then have "timers s (snd (snd e)) = Some h"
      using assms by (auto simp: wf_def list_all_iff)
    with h assms have "snd (snd e) = k" unfolding wf_def by blast
    with e show "k \<in> (snd \<circ> snd) ` set (pending s)" by force
  next
    assume "k \<in> (snd \<circ> snd) ` set (pending s)"
    then obtain e where e: "e \<in> set (pending s)" "snd (snd e) = k" by auto
    then have "timers s k = Some (fst e)"
      using assms by (auto simp: wf_def list_all_iff)
    with e show "k \<in> armed s" by (force simp: armed_def has_armed_timer_def)
  qed
qed


section \<open>Runs that only poll\<close>

lemma run_Nil [simp]: "run [] s = s"
  by (simp add: run_def)

lemma run_Cons [simp]: "run (ev # evs) s = run evs (step ev s)"
  by (simp add: run_def)

lemma run_append: "run (evs @ evs') s = run evs' (run evs s)"
  by (simp add: run_def)

lemma poll_run_absent:
  "list_all is_poll evs \<Longrightarrow> filters s k = None \<Longrightarrow> filters (run evs s) k = None"
proof (induction evs arbitrary: s)
  case Nil
  then show ?case by (simp add: run_def)
next
  case (Cons ev evs)
  from Cons.prems have "filters (step ev s) k = None"
    by (cases ev) (simp_all add: filters_advance)
  with Cons.IH [of "step ev s"] Cons.prems(1) show ?case
    by simp
qed

lemma poll_run_expiry:
  assumes "wf s" "e \<in> set (pending s)" "list_all is_poll evs"
  shows "filters (run evs s) (snd (snd e)) = None \<longleftrightarrow> fst (snd e) \<le> now s + elapsed evs"
  using assms
proof (induction evs arbitrary: s)
  case Nil
  note f = wf_facts [OF Nil.prems(1)]
  have "(snd \<circ> snd) e \<in> (snd \<circ> snd) ` set (pending s)"
    using Nil.prems(2) by (rule imageI)
  with f(7) have "filters s (snd (snd e)) \<noteq> None" by (auto simp: dom_def)
  moreover have "now s < fst (snd e)" using f(2) Nil.prems(2) by blast
  ultimately show ?case by (simp add: run_def)
next
  case (Cons ev evs)
  note f = wf_facts [OF Cons.prems(1)]
  have polls: "list_all is_poll evs" using Cons.prems(3) by simp
  show ?case
  proof (cases ev)
    case (GetFilterChanges i node)
    have "wf (step ev s)" using Cons.prems(1) by (rule wf_step)
    moreover have "e \<in> set (pending (step ev s))" using Cons.prems(2) GetFilterChanges by simp
    ultimately show ?thesis
      using Cons.IH [of "step ev s"] polls GetFilterChanges by simp
  next
    case (GetFilterLogs i node)
    then show ?thesis
      using Cons.IH [of s] Cons.prems polls by simp
  next
    case (Advance d)
    show ?thesis
    proof (cases "is_due (now s + d) e")
      case True
      then have "e \<in> set (filter (is_due (now s + d)) (pending s))"
        using Cons.prems(2) by simp
      then have "(snd \<circ> snd) e \<in> (snd \<circ> snd) ` set (filter (is_due (now s + d)) (pending s))"
        by (rule imageI)
      then have "filters (advance d s) (snd (snd e)) = None"
        by (simp add: filters_advance)
      from poll_run_absent [OF polls this] True show ?thesis
        by (simp add: Advance is_due_def)
    next
      case False
      have "wf (advance d s)" using Cons.prems(1) by (rule wf_advance)
      moreover have "e \<in> set (pending (advance d s))" using Cons.prems(2) False by simp
      ultimately show ?thesis
        using Cons.IH [of "advance d s"] polls by (simp add: Advance add.assoc)
    qed
  qed (use Cons.prems(3) in simp_all)
qed

lemma init_fields [simp]:
  "filters init = Map.empty" "blockNumbers init = Map.empty" "timers init = Map.empty"
  "pending init = []" "next_handle init = 1" "now init = 0"
  by (simp_all add: init_def)

lemma wf_dom_armed: "wf s \<Longrightarrow> dom (filters s) = armed s"
  by (simp only: wf_facts(7) wf_armed)

lemma wf_reachable: "wf (run evs init)"
  by (rule wf_run [OF wf_init])

section \<open>What a poll computes\<close>

lemma intRange_Num:
  "intRange (Num a) (Num b) = Inr [a..b - 1]"
proof -
  have "map (\<lambda>i. int i + a) [0 ..< n] = [a..a + int n - 1]" for n
  proof (induction n)
    case 0
    then show ?case by simp
  next
    case (Suc n)
    have "[a..a + int (Suc n) - 1] = [a..a + int n - 1] @ [a + int n]"
      using upto_rec2 [of a "a + int n"] by simp
    with Suc show ?case by (simp add: add.commute)
  qed
  from this [of "nat (b - a)"] show ?thesis
    by (auto simp: intRange_def js_ge_def)
qed

lemma hex_examples:
  "hexToInt (Str ''0x1'') = Num 1"
  "hexToInt (Str ''0x64'') = Num 100"
  "hexToInt (Str ''0x67'') = Num 103"
  "hexToInt (Str ''0x3c'') = Num 60"
  "hexToInt (Str ''0x32'') = Num 50"
  "hexToInt (Str ''0xzz'') = NaN"
  "hexToInt (Num 50) = Num 80"
  "intToHex (Num 1) = Str ''0x1''"
  "intToHex (Num 100) = Str ''0x64''"
  "intToHex (Num 101) = Str ''0x65''"
  "intToHex (Num 102) = Str ''0x66''"
  "intToHex (Num 0) = Num 0"
  by code_simp+


lemma js_cmp_Num [simp]:
  "js_gt (Num a) (Num b) = (b < a)"
  "js_ge (Num a) (Num b) = (b \<le> a)"
  by (simp_all add: js_gt_def js_ge_def)

lemma js_cmp_NaN [simp]:
  "js_gt NaN v = False" "js_gt v NaN = False" "js_ge NaN v = False" "js_ge v NaN = False"
  by (simp_all add: js_gt_def js_ge_def split: option.split)

lemma promise_all_Inl:
  "Inl e \<in> set ps \<Longrightarrow> \<exists>e'. promise_all ps = Inl e'"
proof (induction ps)
  case Nil
  then show ?case by simp
next
  case (Cons p ps)
  show ?case
  proof (cases p)
    case (Inl e0)
    then show ?thesis by simp
  next
    case (Inr v)
    with Cons obtain e' where "promise_all ps = Inl e'" by auto
    with Inr show ?thesis by simp
  qed
qed

lemma promise_all_Inr:
  "promise_all (map (\<lambda>x. Inr (f x)) xs) = Inr (map f xs)"
  by (induction xs) simp_all

lemma map_blocks_Some:
  "map_blocks f (map (\<lambda>x. Some (g x)) xs) = Inr (map (\<lambda>x. f (g x)) xs)"
  by (induction xs) simp_all

lemma getBlocksInRange_Num:
  "getBlocksInRange (Num a) (Num b) node =
     (if b \<le> a then (Inr [], [])
      else (promise_all (map (rpc_getBlockByNumber node) (map (\<lambda>h. intToHex (Num h)) [a..b - 1])),
            map CallGetBlockByNumber (map (\<lambda>h. intToHex (Num h)) [a..b - 1])))"
  by (simp add: getBlocksInRange_def intRange_Num Let_def)

lemma getBlocksForFilter_no_cursor:
  "blockNumbers s k = None \<or> blockNumbers s k = Some [] \<Longrightarrow>
     getBlocksForFilter k node s = (Inl (Error ''no filter found''), s, [])"
  by (auto simp: getBlocksForFilter_def)

lemma getBlocksForFilter_head_fails:
  "blockNumbers s k = Some c \<Longrightarrow> c \<noteq> [] \<Longrightarrow> rpc_getBlockNumber node = Inl e \<Longrightarrow>
     getBlocksForFilter k node s = (Inl e, s, [CallGetBlockNumber])"
  by (simp add: getBlocksForFilter_def)

lemma getBlocksForFilter_Num:
  assumes "blockNumbers s k = Some c" "c \<noteq> []" "rpc_getBlockNumber node = Inr h"
    and "hexToInt (Str c) = Num a" "hexToInt (Str h) = Num b"
  shows "getBlocksForFilter k node s =
     (if a < b
      then (promise_all (map (rpc_getBlockByNumber node) (map (\<lambda>h. intToHex (Num h)) [a..b - 1])),
            s\<lparr>blockNumbers := (blockNumbers s)(k \<mapsto> h)\<rparr>,
            CallGetBlockNumber # map CallGetBlockByNumber (map (\<lambda>h. intToHex (Num h)) [a..b - 1]))
      else (Inr [], s, [CallGetBlockNumber]))"
  using assms by (simp add: getBlocksForFilter_def getBlocksInRange_Num Let_def)

lemma getFilterChanges_unknown:
  "filters s (hexToInt i) = None \<Longrightarrow>
     getFilterChanges i node s = (Inl (Error ''getFilterChanges: no filter found''), s, [])"
  by (simp add: getFilterChanges_def)

lemma getFilterChanges_Block:
  "filters s (hexToInt i) = Some entry \<Longrightarrow> ftype entry = Block \<Longrightarrow>
     getFilterChanges i node s =
       then_map (\<lambda>block. Hash (hash block)) (getBlocksForFilter (Num (fid entry)) node s)"
  by (simp add: getFilterChanges_def getBlockFilterChanges_def)

lemma getFilterChanges_Tx:
  "filters s (hexToInt i) = Some entry \<Longrightarrow> ftype entry = Tx \<Longrightarrow>
     getFilterChanges i node s =
       then_map (\<lambda>block. Transactions (transactions block)) (getBlocksForFilter (Num (fid entry)) node s)"
  by (simp add: getFilterChanges_def getTxFilterChanges_def)

lemma getFilterChanges_Log:
  "filters s (hexToInt i) = Some entry \<Longrightarrow> ftype entry = Log \<Longrightarrow>
     getFilterChanges i node s = getLogFilterChanges (Num (fid entry)) node s"
  by (simp add: getFilterChanges_def)

lemma getLogFilterChanges_head:
  assumes "filters s k = Some entry" "foptions entry = LogOptions c"
    and "blockNumbers s k = Some cur" "cur \<noteq> []" "rpc_getBlockNumber node = Inr h"
  shows "getLogFilterChanges k node s =
     (let toBlock = (if c_toBlock c = Str ''latest'' then Str h else c_toBlock c);
          q = \<lparr>q_fromBlock = Str cur, q_toBlock = toBlock, q_address = None,
               q_addresses = c_addresses c, q_topics = Some (c_topics c)\<rparr>
      in if js_gt (hexToInt (Str cur)) (hexToInt toBlock)
         then (Inr (Arr []), s, [CallGetBlockNumber])
         else (map_sum id Json (rpc_getFilterLogs node q), s,
               [CallGetBlockNumber, CallGetFilterLogs q]))"
  using assms by (simp add: getLogFilterChanges_def Let_def)

lemma getLogFilterChanges_no_cursor:
  "filters s k = Some entry \<Longrightarrow> blockNumbers s k = None \<or> blockNumbers s k = Some [] \<Longrightarrow>
     getLogFilterChanges k node s = (Inl (Error ''_getLogFilterChanges: no filter found''), s, [])"
  by (auto simp: getLogFilterChanges_def)

lemma then_map_Inl:
  "then_map f (Inl e, s, calls) = (Inl e, s, calls)"
  by (simp add: then_map_def)

lemma then_map_Inr:
  "then_map f (Inr bs, s, calls) =
     (case map_blocks f bs of Inl e \<Rightarrow> (Inl e, s, calls) | Inr is \<Rightarrow> (Inr (Arr is), s, calls))"
  by (simp add: then_map_def)

section \<open>Registry and timers stay in step\<close>

text \<open>
  Claim C5. After every operation (create, poll, uninstall, expiry firing) the filter ids
  in the registry are exactly the filter ids with an armed timer, and deleting a filter,
  by \<open>uninstallFilter\<close> or by its timer firing, removes its registry entry and its
  armed timer together. The states after every operation are the states \<open>run evs init\<close>;
  a timer is armed while the handle stored for the id is in the host's queue. (The map
  \<open>timers\<close> itself keeps the stale handle of a deleted filter; nothing reads it but
  \<open>clearTimer\<close>.)
\<close>

theorem registry_timers_correspond:
  "dom (filters (run evs init)) = armed (run evs init) \<and>
   (let s' = snd (uninstallFilter i (run evs init))
    in hexToInt i \<notin> dom (filters s') \<and> hexToInt i \<notin> armed s') \<and>
   (\<forall>e \<in> set (pending (run evs init)).
      is_due (now (run evs init) + d) e \<longrightarrow>
      snd (snd e) \<notin> dom (filters (advance d (run evs init))) \<and>
      snd (snd e) \<notin> armed (advance d (run evs init)))"
proof -
  let ?s = "run evs init"
  let ?u = "snd (uninstallFilter i ?s)"
  let ?a = "advance d ?s"
  have wf: "wf ?s" by (rule wf_reachable)
  have a: "dom (filters ?s) = armed ?s"
    using wf by (rule wf_dom_armed)
  have eq_u: "dom (filters ?u) = armed ?u"
    by (rule wf_dom_armed [OF wf_uninstallFilter [OF wf]])
  have eq_a: "dom (filters ?a) = armed ?a"
    by (rule wf_dom_armed [OF wf_advance [OF wf]])
  have b: "hexToInt i \<notin> dom (filters ?u)" by simp
  then have c: "hexToInt i \<notin> armed ?u" unfolding eq_u .
  have d: "snd (snd e) \<notin> dom (filters ?a) \<and> snd (snd e) \<notin> armed ?a"
    if "e \<in> set (pending ?s)" "is_due (now ?s + d) e" for e
  proof -
    from that have "e \<in> set (filter (is_due (now ?s + d)) (pending ?s))" by simp
    then have "(snd \<circ> snd) e \<in> (snd \<circ> snd) ` set (filter (is_due (now ?s + d)) (pending ?s))"
      by (rule imageI)
    then have "filters ?a (snd (snd e)) = None"
      by (simp add: filters_advance)
    then have "snd (snd e) \<notin> dom (filters ?a)" by (simp add: dom_def)
    then show ?thesis unfolding eq_a by simp
  qed
  from b c have bc: "let s' = ?u in hexToInt i \<notin> dom (filters s') \<and> hexToInt i \<notin> armed s'"
    unfolding Let_def by (rule conjI)
  from d have d': "\<forall>e \<in> set (pending ?s). is_due (now ?s + d) e \<longrightarrow>
      snd (snd e) \<notin> dom (filters ?a) \<and> snd (snd e) \<notin> armed ?a"
    by blast
  from a bc d' show ?thesis by (intro conjI)
qed

theorem registry_timers_correspond_witness:
  "(let s = run [NewBlockFilter (sample_node ''0x64'')] init
    in dom (filters s) = armed s \<and> Num 1 \<in> dom (filters s) \<and> has_armed_timer s (Num 1) \<and>
       (1, 300000, Num 1) \<in> set (pending s) \<and> is_due (now s + 300000) (1, 300000, Num 1) \<and>
       Num 1 \<notin> dom (filters (advance 300000 s)) \<and> Num 1 \<notin> armed (advance 300000 s))"
proof -
  let ?s = "run [NewBlockFilter (sample_node ''0x64'')] init"
  have p: "pending ?s = [(1, 300000, Num 1)]"
    by (simp add: newBlockFilter_def pending_clearTimer timeoutInterval_def)
  have n: "now ?s = 0"
    by (simp add: newBlockFilter_def)
  have f: "Num 1 \<in> dom (filters ?s)"
    by (simp add: newBlockFilter_def)
  have due: "is_due (now ?s + 300000) (1, 300000, Num 1)"
    unfolding n by (simp add: is_due_def)
  note t = registry_timers_correspond [of "[NewBlockFilter (sample_node ''0x64'')]" "Str ''0x1''" 300000]
  from t have 1: "dom (filters ?s) = armed ?s" by (rule conjunct1)
  from t have "\<forall>e \<in> set (pending ?s). is_due (now ?s + 300000) e \<longrightarrow>
      snd (snd e) \<notin> dom (filters (advance 300000 ?s)) \<and> snd (snd e) \<notin> armed (advance 300000 ?s)"
    by (rule conjunct2 [THEN conjunct2])
  then have 2: "is_due (now ?s + 300000) (1, 300000, Num 1) \<longrightarrow>
      Num 1 \<notin> dom (filters (advance 300000 ?s)) \<and> Num 1 \<notin> armed (advance 300000 ?s)"
    unfolding p by simp
  have m: "(1, 300000, Num 1) \<in> set (pending ?s)" unfolding p by simp
  have h: "has_armed_timer ?s (Num 1)"
    unfolding has_armed_timer_def p by (simp add: newBlockFilter_def)
  from 1 f h m due 2 show ?thesis unfolding Let_def by blast
qed

section \<open>Sample runs\<close>

lemma sample_node_fields [simp]:
  "rpc_getBlockNumber (sample_node head) = Inr head"
  "rpc_getBlockByNumber (sample_node head) = (\<lambda>number. Inr (Some (sample_block number)))"
  "rpc_getFilterLogs (sample_node head) = (\<lambda>q. Inr [''log''])"
  by (simp_all add: sample_node_def)

lemma block_filter_created:
  "filters (fst (snd (newBlockFilter (sample_node h) init))) (Num 1) =
     Some \<lparr>ftype = Block, foptions = StrOptions ''latest'', fid = 1\<rparr>"
  "blockNumbers (fst (snd (newBlockFilter (sample_node h) init))) (Num 1) = Some h"
  "pending (fst (snd (newBlockFilter (sample_node h) init))) = [(1, 300000, Num 1)]"
  "now (fst (snd (newBlockFilter (sample_node h) init))) = 0"
  by (simp_all add: newBlockFilter_def blockNumbers_created pending_clearTimer timeoutInterval_def)

section \<open>Block and pending-transaction filters\<close>

text \<open>
  Claim C1. For a block filter with cursor \<open>c\<close> and head \<open>h > c\<close>, a successful
  \<open>getFilterChanges\<close> is claimed to fetch exactly the heights \<open>c + 1 .. h\<close>, to
  return their hashes in ascending order and to set the cursor to \<open>h\<close>; for a filter
  created at head 100 and polled at head 103, the heights 101, 102, 103. The code scans
  \<open>intRange c h\<close>, the heights \<open>c .. h - 1\<close> (\<open>getBlocksForFilter_Num\<close>): run on the
  claim's own scenario it fetches 100, 101 and 102, returns those three hashes and sets
  the cursor to 103, so block 100 is delivered although it was the head when the filter
  was created, and block 103 is held back until a later poll.
\<close>

theorem block_scan_starts_at_cursor:
  "(let s = fst (snd (newBlockFilter (sample_node ''0x64'') init));
        out = getFilterChanges (Str ''0x1'') (sample_node ''0x67'') s
    in blockNumbers s (Num 1) = Some ''0x64'' \<and>
       snd (snd out) = [CallGetBlockNumber, CallGetBlockByNumber (Str ''0x64''),
                        CallGetBlockByNumber (Str ''0x65''), CallGetBlockByNumber (Str ''0x66'')] \<and>
       fst out = Inr (Arr [Hash ''hash-0x64'', Hash ''hash-0x65'', Hash ''hash-0x66'']) \<and>
       blockNumbers (fst (snd out)) (Num 1) = Some ''0x67'')"
proof -
  let ?s = "fst (snd (newBlockFilter (sample_node ''0x64'') init))"
  let ?entry = "\<lparr>ftype = Block, foptions = StrOptions ''latest'', fid = 1\<rparr>"
  have f: "filters ?s (hexToInt (Str ''0x1'')) = Some ?entry"
    by (simp add: hex_examples block_filter_created)
  have c: "blockNumbers ?s (Num 1) = Some ''0x64''"
    by (simp add: block_filter_created)
  have range: "[100..103 - 1] = [100, 101, 102 :: int]"
    by (simp add: upto_rec1)
  have blocks: "getBlocksForFilter (Num 1) (sample_node ''0x67'') ?s =
     (Inr [Some (sample_block (Str ''0x64'')), Some (sample_block (Str ''0x65'')),
           Some (sample_block (Str ''0x66''))],
      ?s\<lparr>blockNumbers := (blockNumbers ?s)(Num 1 \<mapsto> ''0x67'')\<rparr>,
      [CallGetBlockNumber, CallGetBlockByNumber (Str ''0x64''),
       CallGetBlockByNumber (Str ''0x65''), CallGetBlockByNumber (Str ''0x66'')])"
    using getBlocksForFilter_Num [OF c _ _ hex_examples(2) hex_examples(3), of "sample_node ''0x67''"]
    by (simp add: range hex_examples)
  have g: "getFilterChanges (Str ''0x1'') (sample_node ''0x67'') ?s =
     then_map (\<lambda>block. Hash (hash block)) (getBlocksForFilter (Num 1) (sample_node ''0x67'') ?s)"
    using getFilterChanges_Block [OF f] by simp
  have "getFilterChanges (Str ''0x1'') (sample_node ''0x67'') ?s =
     (Inr (Arr [Hash ''hash-0x64'', Hash ''hash-0x65'', Hash ''hash-0x66'']),
      ?s\<lparr>blockNumbers := (blockNumbers ?s)(Num 1 \<mapsto> ''0x67'')\<rparr>,
      [CallGetBlockNumber, CallGetBlockByNumber (Str ''0x64''),
       CallGetBlockByNumber (Str ''0x65''), CallGetBlockByNumber (Str ''0x66'')])"
    unfolding g blocks
    by (simp add: then_map_Inr sample_block_def)
  then show ?thesis
    using c by (simp add: Let_def)
qed

lemma node_missing_fields [simp]:
  "rpc_getBlockNumber (node_missing head bad) = Inr head"
  "rpc_getBlockByNumber (node_missing head bad) =
     (\<lambda>number. if number = bad then Inl (Error ''rpc error'') else Inr (Some (sample_block number)))"
  by (simp_all add: node_missing_def)

text \<open>
  Claim C3. When a block fetch of the range scan of a block or pending-transaction filter
  fails, the whole \<open>getFilterChanges\<close> call is claimed to fail with the cursor left at
  its value from before the call. The call does fail, but \<open>getBlocksForFilter\<close> stores
  the head as the new cursor before it issues the fetches: with the cursor at
  \<^verbatim>\<open>0x64\<close>, the head at \<^verbatim>\<open>0x67\<close> and the fetch of \<^verbatim>\<open>0x65\<close> failing, the call is
  rejected and the cursor is \<^verbatim>\<open>0x67\<close>.
\<close>

theorem failed_fetch_moves_cursor:
  "(let s = fst (snd (newBlockFilter (sample_node ''0x64'') init));
        out = getFilterChanges (Str ''0x1'') (node_missing ''0x67'' (Str ''0x65'')) s
    in fst out = Inl (Error ''rpc error'') \<and>
       blockNumbers s (Num 1) = Some ''0x64'' \<and>
       blockNumbers (fst (snd out)) (Num 1) \<noteq> blockNumbers s (Num 1))"
proof -
  let ?s = "fst (snd (newBlockFilter (sample_node ''0x64'') init))"
  let ?node = "node_missing ''0x67'' (Str ''0x65'')"
  let ?entry = "\<lparr>ftype = Block, foptions = StrOptions ''latest'', fid = 1\<rparr>"
  have f: "filters ?s (hexToInt (Str ''0x1'')) = Some ?entry"
    by (simp add: hex_examples block_filter_created)
  have c: "blockNumbers ?s (Num 1) = Some ''0x64''"
    by (simp add: block_filter_created)
  have range: "[100..103 - 1] = [100, 101, 102 :: int]"
    by (simp add: upto_rec1)
  have blocks: "getBlocksForFilter (Num 1) ?node ?s =
     (Inl (Error ''rpc error''), ?s\<lparr>blockNumbers := (blockNumbers ?s)(Num 1 \<mapsto> ''0x67'')\<rparr>,
      [CallGetBlockNumber, CallGetBlockByNumber (Str ''0x64''),
       CallGetBlockByNumber (Str ''0x65''), CallGetBlockByNumber (Str ''0x66'')])"
    using getBlocksForFilter_Num [OF c _ _ hex_examples(2) hex_examples(3), of ?node]
    by (simp add: range hex_examples)
  have g: "getFilterChanges (Str ''0x1'') ?node ?s =
     then_map (\<lambda>block. Hash (hash block)) (getBlocksForFilter (Num 1) ?node ?s)"
    using getFilterChanges_Block [OF f] by simp
  show ?thesis
    unfolding Let_def g blocks using c by (simp add: then_map_Inl)
qed

text \<open>
  Claim C3, as the code has it: for every block or pending-transaction filter, if a
  block fetch of the range scan fails, the whole \<open>getFilterChanges\<close> call fails, and
  the cursor has already been advanced to the head, so a retry does not scan the range
  again.
\<close>

theorem failed_fetch_after_cursor_advance:
  assumes "filters s (hexToInt i) = Some entry" "ftype entry \<noteq> Log"
    and "blockNumbers s (Num (fid entry)) = Some c" "c \<noteq> []"
    and "rpc_getBlockNumber node = Inr h"
    and "hexToInt (Str c) = Num a" "hexToInt (Str h) = Num b"
    and "a \<le> n" "n < b"
    and "rpc_getBlockByNumber node (intToHex (Num n)) = Inl e"
  shows "(\<exists>e'. fst (getFilterChanges i node s) = Inl e') \<and>
         blockNumbers (fst (snd (getFilterChanges i node s))) (Num (fid entry)) = Some h"
proof -
  let ?k = "Num (fid entry)"
  let ?numbers = "map (\<lambda>h. intToHex (Num h)) [a..b - 1]"
  have lt: "a < b" using assms(8,9) by simp
  have "n \<in> set [a..b - 1]" using assms(8,9) by simp
  then have "rpc_getBlockByNumber node (intToHex (Num n))
      \<in> (\<lambda>h. rpc_getBlockByNumber node (intToHex (Num h))) ` set [a..b - 1]"
    by (rule imageI)
  then have "Inl e \<in> set (map (rpc_getBlockByNumber node) ?numbers)"
    by (simp add: assms(10) image_image)
  then obtain e' where e': "promise_all (map (rpc_getBlockByNumber node) ?numbers) = Inl e'"
    using promise_all_Inl by blast
  have blocks: "getBlocksForFilter ?k node s =
      (Inl e', s\<lparr>blockNumbers := (blockNumbers s)(?k \<mapsto> h)\<rparr>,
       CallGetBlockNumber # map CallGetBlockByNumber ?numbers)"
    using getBlocksForFilter_Num [OF assms(3-7)] lt e' by simp
  from assms(2) have "ftype entry = Block \<or> ftype entry = Tx"
    by (cases "ftype entry") simp_all
  then have "getFilterChanges i node s =
      (Inl e', s\<lparr>blockNumbers := (blockNumbers s)(?k \<mapsto> h)\<rparr>,
       CallGetBlockNumber # map CallGetBlockByNumber ?numbers)"
    using getFilterChanges_Block [OF assms(1)] getFilterChanges_Tx [OF assms(1)] blocks
    by (auto simp: then_map_Inl)
  then show ?thesis by simp
qed

theorem failed_fetch_after_cursor_advance_witness:
  "(let s = fst (snd (newBlockFilter (sample_node ''0x64'') init));
        out = getFilterChanges (Str ''0x1'') (node_missing ''0x67'' (Str ''0x65'')) s
    in (\<exists>e'. fst out = Inl e') \<and> blockNumbers (fst (snd out)) (Num 1) = Some ''0x67'')"
proof -
  let ?s = "fst (snd (newBlockFilter (sample_node ''0x64'') init))"
  let ?entry = "\<lparr>ftype = Block, foptions = StrOptions ''latest'', fid = 1\<rparr>"
  have f: "filters ?s (hexToInt (Str ''0x1'')) = Some ?entry"
    by (simp add: hex_examples block_filter_created)
  have c: "blockNumbers ?s (Num (fid ?entry)) = Some ''0x64''"
    by (simp add: block_filter_created)
  have bad: "rpc_getBlockByNumber (node_missing ''0x67'' (Str ''0x65'')) (intToHex (Num 101)) = Inl (Error ''rpc error'')"
    by (simp add: hex_examples)
  from failed_fetch_after_cursor_advance [OF f _ c _ _ hex_examples(2) hex_examples(3) _ _ bad]
  show ?thesis by (simp add: Let_def)
qed

section \<open>Expiry\<close>

text \<open>
  Claim C6. Every successful \<open>getFilterChanges\<close> call is claimed to re-arm the filter's
  expiry timer, so that a filter polled just before the idle window of five minutes
  elapses stays retrievable for a full window from that poll. No poll path calls
  \<open>setupTimer\<close>: a block filter created at time 0 and polled with success at 299999 ms
  still has its one timeout due at 300000 ms, and one millisecond after the poll it is
  gone.
\<close>

theorem poll_does_not_extend_life:
  "(let s1 = fst (snd (newBlockFilter (sample_node ''0x64'') init));
        s2 = advance 299999 s1;
        out = getFilterChanges (Str ''0x1'') (sample_node ''0x64'') s2;
        s3 = advance 1 (fst (snd out))
    in now s2 = 299999 \<and> fst out = Inr (Arr []) \<and> pending (fst (snd out)) = [(1, 300000, Num 1)] \<and>
       now s3 = 300000 \<and> filters s3 (Num 1) = None \<and>
       fst (getFilterChanges (Str ''0x1'') (sample_node ''0x64'') s3) =
         Inl (Error ''getFilterChanges: no filter found''))"
proof -
  let ?s1 = "fst (snd (newBlockFilter (sample_node ''0x64'') init))"
  let ?s2 = "advance 299999 ?s1"
  let ?node = "sample_node ''0x64''"
  let ?entry = "\<lparr>ftype = Block, foptions = StrOptions ''latest'', fid = 1\<rparr>"
  let ?out = "getFilterChanges (Str ''0x1'') ?node ?s2"
  have p2: "pending ?s2 = [(1, 300000, Num 1)]"
    by (simp add: block_filter_created is_due_def)
  have n2: "now ?s2 = 299999"
    by (simp add: block_filter_created)
  have f: "filters ?s2 (hexToInt (Str ''0x1'')) = Some ?entry"
    by (simp add: hex_examples filters_advance block_filter_created is_due_def)
  have c: "blockNumbers ?s2 (Num 1) = Some ''0x64''"
    by (simp add: blockNumbers_advance block_filter_created is_due_def)
  have blocks: "getBlocksForFilter (Num 1) ?node ?s2 = (Inr [], ?s2, [CallGetBlockNumber])"
    using getBlocksForFilter_Num [OF c _ _ hex_examples(2) hex_examples(2), of ?node]
    by simp
  have g: "?out = then_map (\<lambda>block. Hash (hash block)) (getBlocksForFilter (Num 1) ?node ?s2)"
    using getFilterChanges_Block [OF f] by simp
  have out: "?out = (Inr (Arr []), ?s2, [CallGetBlockNumber])"
    unfolding g blocks by (simp add: then_map_Inr)
  have gone: "filters (advance 1 ?s2) (Num 1) = None"
    unfolding filters_advance [of 1 ?s2] p2 n2 by (simp add: is_due_def)
  then have "filters (advance 1 ?s2) (hexToInt (Str ''0x1'')) = None"
    by (simp add: hex_examples)
  then have last: "fst (getFilterChanges (Str ''0x1'') ?node (advance 1 ?s2)) =
      Inl (Error ''getFilterChanges: no filter found'')"
    by (simp add: getFilterChanges_unknown)
  show ?thesis
    unfolding Let_def out using n2 p2 gone last by simp
qed

text \<open>
  Claim C6, as the code has it: \<open>getFilterChanges\<close> leaves the timer table and the
  queue of armed timeouts as they are; the expiry timer is armed by creation only, and a
  filter that is only polled or replayed after its creation is deleted exactly when a
  full idle window has passed since the creation, whenever the polls happen.
\<close>

theorem polling_leaves_expiry_alone:
  assumes "list_all is_poll evs"
  shows "(let out = getFilterChanges i node s
          in timers (fst (snd out)) = timers s \<and> pending (fst (snd out)) = pending s) \<and>
         (let inst = installFilter ty opts (run evs0 init);
              s1 = fst (snd (created inst node'))
          in filters (run evs s1) (Num (fst inst)) = None \<longleftrightarrow> timeoutInterval \<le> elapsed evs)"
proof -
  let ?s0 = "run evs0 init"
  let ?inst = "installFilter ty opts ?s0"
  let ?s1 = "fst (snd (created ?inst node'))"
  let ?e = "(next_handle ?s0, now ?s0 + timeoutInterval, Num 1)"
  have "wf (snd ?inst)" by (rule wf_installFilter [OF wf_reachable])
  then have wf1: "wf ?s1" by (rule wf_created)
  have e: "?e \<in> set (pending ?s1)" by simp
  from poll_run_expiry [OF wf1 e assms]
  have "filters (run evs ?s1) (Num (fst ?inst)) = None \<longleftrightarrow> timeoutInterval \<le> elapsed evs"
    by simp
  then show ?thesis by (simp add: Let_def)
qed

theorem polling_leaves_expiry_alone_witness:
  "list_all is_poll [Advance 299999, GetFilterChanges (Str ''0x1'') (sample_node ''0x64''), Advance 1] \<and>
   filters (run [Advance 299999, GetFilterChanges (Str ''0x1'') (sample_node ''0x64''), Advance 1]
              (fst (snd (created (installFilter Block (StrOptions ''latest'') (run [] init))
                           (sample_node ''0x64''))))) (Num 1) = None"
proof -
  let ?evs = "[Advance 299999, GetFilterChanges (Str ''0x1'') (sample_node ''0x64''), Advance 1]"
  have polls: "list_all is_poll ?evs" by simp
  have "timeoutInterval \<le> elapsed ?evs" by (simp add: timeoutInterval_def)
  with polling_leaves_expiry_alone [OF polls, of "Str ''0x1''" "sample_node ''0x64''" init
      Block "StrOptions ''latest''" "[]" "sample_node ''0x64''"]
  have "filters (run ?evs (fst (snd (created (installFilter Block (StrOptions ''latest'') (run [] init))
                           (sample_node ''0x64''))))) (Num 1) = None"
    unfolding Let_def by (simp del: run_Cons run_Nil)
  with polls show ?thesis by (rule conjI)
qed

lemma node_down_fields [simp]:
  "rpc_getBlockNumber node_down = Inl (Error ''rpc error'')"
  by (simp add: node_down_def)

lemma normalizeFilterBlock_examples [simp]:
  "normalizeFilterBlock Undefined = Inr (Str ''latest'')"
  "normalizeFilterBlock (Str ''latest'') = Inr (Str ''latest'')"
  "normalizeFilterBlock (Str ''pending'') = Inr (Str ''latest'')"
  "normalizeFilterBlock (Str ''earliest'') = Inr (Num 0)"
  "normalizeFilterBlock (Str ''0x32'') = Inr (Num 50)"
  "normalizeFilterBlock (Str ''0xzz'') = Inr NaN"
  by (simp_all add: normalizeFilterBlock_def hex_examples)

lemma log_filter_created:
  assumes "normalizeFilter params = Inr c"
  shows "filters (fst (snd (newFilter params (sample_node h) init))) (Num 1) =
           Some \<lparr>ftype = Log, foptions = LogOptions c, fid = 1\<rparr>"
    and "blockNumbers (fst (snd (newFilter params (sample_node h) init))) (Num 1) = Some h"
    and "pending (fst (snd (newFilter params (sample_node h) init))) = [(1, 300000, Num 1)]"
    and "fst (newFilter params (sample_node h) init) = Inr (Str ''0x1'')"
  by (simp_all add: newFilter_accepted [OF assms] blockNumbers_created result_created
        pending_clearTimer timeoutInterval_def hex_examples)

section \<open>Log filters\<close>

text \<open>
  Claim C2. A successful \<open>getFilterChanges\<close> on a log filter whose resolved
  \<^verbatim>\<open>toBlock\<close> is not below the cursor is claimed to advance the cursor to
  \<^verbatim>\<open>toBlock\<close>, so that a second call right after it, with no new block, is empty.
  \<open>getLogFilterChanges\<close> never writes \<open>blockNumbers\<close> (\<open>getLogFilterChanges_state\<close>),
  unlike \<open>getBlocksForFilter\<close>: a log filter created at head \<^verbatim>\<open>0x64\<close> and polled at
  head \<^verbatim>\<open>0x67\<close> keeps the cursor \<^verbatim>\<open>0x64\<close>, and the second poll sends the same query
  over \<^verbatim>\<open>0x64 .. 0x67\<close> and returns the same records again.
\<close>

theorem log_poll_keeps_cursor:
  "(let params = \<lparr>p_fromBlock = Undefined, p_toBlock = Undefined, p_address = NoAddress, p_topics = None\<rparr>;
        q = \<lparr>q_fromBlock = Str ''0x64'', q_toBlock = Str ''0x67'', q_address = None,
             q_addresses = None, q_topics = Some []\<rparr>;
        s = fst (snd (newFilter params (sample_node ''0x64'') init));
        first = getFilterChanges (Str ''0x1'') (sample_node ''0x67'') s;
        second = getFilterChanges (Str ''0x1'') (sample_node ''0x67'') (fst (snd first))
    in blockNumbers s (Num 1) = Some ''0x64'' \<and>
       first = (Inr (Json [''log'']), s, [CallGetBlockNumber, CallGetFilterLogs q]) \<and>
       blockNumbers (fst (snd first)) (Num 1) = Some ''0x64'' \<and>
       second = first)"
proof -
  let ?params = "\<lparr>p_fromBlock = Undefined, p_toBlock = Undefined, p_address = NoAddress, p_topics = None\<rparr>"
  let ?c = "\<lparr>c_fromBlock = Str ''latest'', c_toBlock = Str ''latest'', c_addresses = None, c_topics = []\<rparr>"
  let ?entry = "\<lparr>ftype = Log, foptions = LogOptions ?c, fid = 1\<rparr>"
  let ?s = "fst (snd (newFilter ?params (sample_node ''0x64'') init))"
  let ?q = "\<lparr>q_fromBlock = Str ''0x64'', q_toBlock = Str ''0x67'', q_address = None,
             q_addresses = None, q_topics = Some []\<rparr>"
  have n: "normalizeFilter ?params = Inr ?c"
    by (simp add: normalizeFilter_def)
  note created = log_filter_created [OF n, of "''0x64''"]
  have f: "filters ?s (hexToInt (Str ''0x1'')) = Some ?entry"
    by (simp add: hex_examples created)
  have f1: "filters ?s (Num 1) = Some ?entry" by (simp add: created)
  have c: "blockNumbers ?s (Num 1) = Some ''0x64''" by (simp add: created)
  have "getFilterChanges (Str ''0x1'') (sample_node ''0x67'') ?s =
          getLogFilterChanges (Num 1) (sample_node ''0x67'') ?s"
    using getFilterChanges_Log [OF f] by simp
  also have "\<dots> = (Inr (Json [''log'']), ?s, [CallGetBlockNumber, CallGetFilterLogs ?q])"
    using getLogFilterChanges_head [OF f1 _ c, of ?c "sample_node ''0x67''" "''0x67''"]
    by (simp add: hex_examples Let_def)
  finally have first: "getFilterChanges (Str ''0x1'') (sample_node ''0x67'') ?s =
      (Inr (Json [''log'']), ?s, [CallGetBlockNumber, CallGetFilterLogs ?q])" .
  show ?thesis
    unfolding Let_def first using c by (simp add: first)
qed

section \<open>Filter ids\<close>

text \<open>
  Claim C4. Each newly installed filter is claimed to get the id \<open>previousCount + 1\<close>,
  so that the ids of live filters are pairwise distinct and no live id is reassigned.
  \<open>installFilter\<close> computes the count as \<open>keys_length\<close>, which is 0 for every map, so
  every filter gets the id 1 (\<open>installFilter_id\<close>): a pending-transaction filter created
  while a block filter is live also gets \<^verbatim>\<open>0x1\<close> and replaces the block filter in the
  registry.
\<close>

theorem second_filter_reuses_id:
  "(let first = newBlockFilter (sample_node ''0x64'') init;
        second = newPendingTransactionFilter (sample_node ''0x64'') (fst (snd first));
        s = fst (snd second)
    in fst first = Inr (Str ''0x1'') \<and> fst second = Inr (Str ''0x1'') \<and>
       dom (filters (fst (snd first))) = {Num 1} \<and> dom (filters s) = {Num 1} \<and>
       filters s (Num 1) = Some \<lparr>ftype = Tx, foptions = StrOptions ''pending'', fid = 1\<rparr>)"
  by (simp add: Let_def newBlockFilter_def newPendingTransactionFilter_def result_created
        hex_examples)

section \<open>Validation of block options\<close>

text \<open>
  Claim C7. \<open>newFilter\<close> is claimed to fail, and to change no state, for every
  \<^verbatim>\<open>fromBlock\<close> or \<^verbatim>\<open>toBlock\<close> string that is no sentinel and cannot be parsed as a
  hex integer, such as \<^verbatim>\<open>"0xzz"\<close>. \<open>normalizeFilterBlock\<close> throws only for a string
  without the prefix \<^verbatim>\<open>0x\<close>; a prefixed string goes to \<open>hexToInt\<close> unchecked. For
  \<^verbatim>\<open>"0xzz"\<close> that is \<^verbatim>\<open>NaN\<close>, and the filter is installed with it: the call answers
  the id \<^verbatim>\<open>0x1\<close>, the registry holds the filter, the cursor is stored and a timer is
  armed.
\<close>

theorem malformed_hex_is_accepted:
  "(let params = \<lparr>p_fromBlock = Str ''0xzz'', p_toBlock = Undefined, p_address = NoAddress, p_topics = None\<rparr>;
        out = newFilter params (sample_node ''0x64'') init;
        s = fst (snd out)
    in hexToInt (Str ''0xzz'') = NaN \<and>
       fst out = Inr (Str ''0x1'') \<and>
       filters s (Num 1) =
         Some \<lparr>ftype = Log,
               foptions = LogOptions \<lparr>c_fromBlock = NaN, c_toBlock = Str ''latest'',
                                       c_addresses = None, c_topics = []\<rparr>,
               fid = 1\<rparr> \<and>
       blockNumbers s (Num 1) = Some ''0x64'' \<and>
       pending s = [(1, 300000, Num 1)])"
proof -
  let ?params = "\<lparr>p_fromBlock = Str ''0xzz'', p_toBlock = Undefined, p_address = NoAddress, p_topics = None\<rparr>"
  let ?c = "\<lparr>c_fromBlock = NaN, c_toBlock = Str ''latest'', c_addresses = None, c_topics = []\<rparr>"
  have n: "normalizeFilter ?params = Inr ?c"
    by (simp add: normalizeFilter_def)
  note created = log_filter_created [OF n, of "''0x64''"]
  show ?thesis
    unfolding Let_def using created by (simp add: hex_examples)
qed

section \<open>Inverted ranges\<close>

text \<open>
  Claim C8. A poll of a filter whose effective range is inverted is claimed to return an
  empty result without any block or log request and to leave the cursor. For a log filter
  with a concrete \<^verbatim>\<open>toBlock\<close> the stored value is already a number, and
  \<open>getLogFilterChanges\<close> passes it through \<open>hexToInt\<close> once more, which reads its
  decimal digits as hexadecimal: with \<^verbatim>\<open>toBlock = "0x32"\<close> (50) and the cursor at
  \<^verbatim>\<open>0x3c\<close> (60) the comparison is \<open>60 > 80\<close>, so the log query is sent although 50 is
  below the cursor.
\<close>

theorem numeric_toBlock_is_reparsed:
  "(let params = \<lparr>p_fromBlock = Undefined, p_toBlock = Str ''0x32'', p_address = NoAddress, p_topics = None\<rparr>;
        q = \<lparr>q_fromBlock = Str ''0x3c'', q_toBlock = Num 50, q_address = None,
             q_addresses = None, q_topics = Some []\<rparr>;
        s = fst (snd (newFilter params (sample_node ''0x3c'') init))
    in map_option (opt_toBlock \<circ> foptions) (filters s (Num 1)) = Some (Num 50) \<and>
       map_option (\<lambda>c. hexToInt (Str c)) (blockNumbers s (Num 1)) = Some (Num 60) \<and>
       hexToInt (Num 50) = Num 80 \<and>
       getFilterChanges (Str ''0x1'') (sample_node ''0x3c'') s =
         (Inr (Json [''log'']), s, [CallGetBlockNumber, CallGetFilterLogs q]))"
proof -
  let ?params = "\<lparr>p_fromBlock = Undefined, p_toBlock = Str ''0x32'', p_address = NoAddress, p_topics = None\<rparr>"
  let ?c = "\<lparr>c_fromBlock = Str ''latest'', c_toBlock = Num 50, c_addresses = None, c_topics = []\<rparr>"
  let ?entry = "\<lparr>ftype = Log, foptions = LogOptions ?c, fid = 1\<rparr>"
  let ?s = "fst (snd (newFilter ?params (sample_node ''0x3c'') init))"
  let ?q = "\<lparr>q_fromBlock = Str ''0x3c'', q_toBlock = Num 50, q_address = None,
             q_addresses = None, q_topics = Some []\<rparr>"
  have n: "normalizeFilter ?params = Inr ?c"
    by (simp add: normalizeFilter_def)
  note created = log_filter_created [OF n, of "''0x3c''"]
  have f: "filters ?s (hexToInt (Str ''0x1'')) = Some ?entry"
    by (simp add: hex_examples created)
  have f1: "filters ?s (Num 1) = Some ?entry" by (simp add: created)
  have c: "blockNumbers ?s (Num 1) = Some ''0x3c''" by (simp add: created)
  have "getFilterChanges (Str ''0x1'') (sample_node ''0x3c'') ?s =
          getLogFilterChanges (Num 1) (sample_node ''0x3c'') ?s"
    using getFilterChanges_Log [OF f] by simp
  also have "\<dots> = (Inr (Json [''log'']), ?s, [CallGetBlockNumber, CallGetFilterLogs ?q])"
    using getLogFilterChanges_head [OF f1 _ c, of ?c "sample_node ''0x3c''" "''0x3c''"]
    by (simp add: hex_examples Let_def)
  finally have poll: "getFilterChanges (Str ''0x1'') (sample_node ''0x3c'') ?s =
      (Inr (Json [''log'']), ?s, [CallGetBlockNumber, CallGetFilterLogs ?q])" .
  show ?thesis
    unfolding Let_def poll using f1 c by (simp add: hex_examples)
qed

section \<open>Creation with a failing head request\<close>

text \<open>
  Claim C10. When the head request of a creation fails, the filter is claimed to stay
  registered with an armed timer and no cursor entry, so that \<open>getFilterChanges\<close> on
  it fails until it expires. The filter does stay registered; but every filter gets the
  id 1, so a creation that fails while an earlier filter is live finds that filter's
  cursor under its own id: the new filter has the cursor \<^verbatim>\<open>0x64\<close> and its poll
  succeeds.
\<close>

theorem failed_creation_inherits_cursor:
  "(let s1 = fst (snd (newBlockFilter (sample_node ''0x64'') init));
        out = newBlockFilter node_down s1;
        s2 = fst (snd out)
    in fst out = Inl (Error ''rpc error'') \<and>
       filters s2 (Num 1) = Some \<lparr>ftype = Block, foptions = StrOptions ''latest'', fid = 1\<rparr> \<and>
       blockNumbers s2 (Num 1) = Some ''0x64'' \<and>
       getFilterChanges (Str ''0x1'') (sample_node ''0x64'') s2 = (Inr (Arr []), s2, [CallGetBlockNumber]))"
proof -
  let ?s1 = "fst (snd (newBlockFilter (sample_node ''0x64'') init))"
  let ?s2 = "fst (snd (newBlockFilter node_down ?s1))"
  let ?node = "sample_node ''0x64''"
  let ?entry = "\<lparr>ftype = Block, foptions = StrOptions ''latest'', fid = 1\<rparr>"
  have r: "fst (newBlockFilter node_down ?s1) = Inl (Error ''rpc error'')"
    by (simp add: newBlockFilter_def result_created)
  have f1: "filters ?s2 (Num 1) = Some ?entry"
    by (simp add: newBlockFilter_def)
  then have f: "filters ?s2 (hexToInt (Str ''0x1'')) = Some ?entry"
    by (simp add: hex_examples)
  have c: "blockNumbers ?s2 (Num 1) = Some ''0x64''"
    by (simp add: newBlockFilter_def blockNumbers_created)
  have blocks: "getBlocksForFilter (Num 1) ?node ?s2 = (Inr [], ?s2, [CallGetBlockNumber])"
    using getBlocksForFilter_Num [OF c _ _ hex_examples(2) hex_examples(2), of ?node]
    by simp
  have g: "getFilterChanges (Str ''0x1'') ?node ?s2 =
      then_map (\<lambda>block. Hash (hash block)) (getBlocksForFilter (Num 1) ?node ?s2)"
    using getFilterChanges_Block [OF f] by simp
  have poll: "getFilterChanges (Str ''0x1'') ?node ?s2 = (Inr (Arr []), ?s2, [CallGetBlockNumber])"
    unfolding g blocks by (simp add: then_map_Inr)
  show ?thesis
    unfolding Let_def using r f1 c poll by simp
qed

section \<open>Hex encoding and decoding\<close>

lemma hex_digit_digit_char: "d < 16 \<Longrightarrow> hex_digit (digit_char d) = Some d"
proof -
  have all: "list_all (\<lambda>d. hex_digit (digit_char d) = Some d) [0..<16]"
    by code_simp
  assume "d < 16"
  then have "d \<in> set [0..<16]" by simp
  with all show ?thesis unfolding list_all_iff by blast
qed

lemma digits_nonempty: "digits b n \<noteq> []"
  by (subst digits.simps) simp

lemma digits_hex: "list_all is_hex (digits 16 n)"
proof (induction "16 :: nat" n rule: digits.induct)
  case (1 n)
  show ?case
  proof (cases "n < 16")
    case True
    then show ?thesis
      by (subst digits.simps) (simp add: is_hex_def hex_digit_digit_char)
  next
    case False
    then have "list_all is_hex (digits 16 (n div 16))" using 1 by simp
    with False show ?thesis
      by (subst digits.simps) (simp add: is_hex_def hex_digit_digit_char)
  qed
qed

lemma hex_value_snoc: "hex_value (z @ [c]) = 16 * hex_value z + the (hex_digit c)"
  by (simp add: hex_value_def)

lemma hex_value_digits: "hex_value (digits 16 n) = n"
proof (induction "16 :: nat" n rule: digits.induct)
  case (1 n)
  show ?case
  proof (cases "n < 16")
    case True
    then show ?thesis
      by (subst digits.simps) (simp add: hex_value_def hex_digit_digit_char)
  next
    case False
    then have "hex_value (digits 16 (n div 16)) = n div 16" using 1 by simp
    with False show ?thesis
      by (subst digits.simps) (simp add: hex_value_snoc hex_digit_digit_char)
  qed
qed

lemma parseInt16_hex: "parseInt16 (''0x'' @ digits 16 n) = Num (int n)"
proof -
  have tw: "takeWhile is_hex (digits 16 n) = digits 16 n"
    using digits_hex [of n] by (simp add: takeWhile_eq_all_conv list_all_iff)
  show ?thesis
    by (simp add: parseInt16_def is_ws_def Let_def tw digits_nonempty hex_value_digits)
qed

lemma hexToInt_intToHex: "0 < n \<Longrightarrow> hexToInt (intToHex (Num n)) = Num n"
  using parseInt16_hex [of "nat n"]
  by (simp add: intToHex_def hexToInt_def num_to_string_def)

lemma hexToInt_Str: "hexToInt v = Str s \<Longrightarrow> s = []"
  by (cases v) (auto simp: hexToInt_def parseInt16_def Let_def split: if_splits)

section \<open>Replaying the stored criteria\<close>

lemma normalizeParamBlock_cases:
  "normalizeParamBlock (Str ''latest'') = Str ''latest''"
  "0 < n \<Longrightarrow> normalizeParamBlock (Num n) = Str (''0x'' @ digits 16 (nat n))"
  by (simp_all add: normalizeParamBlock_def intToHex_def num_to_string_def)

lemma hex_examples_more:
  "hexToInt (Str ''0x2'') = Num 2"
  "intToHex (Num 50) = Str ''0x32''"
  "hexToInt (Str ''0x32'') = Num 50"
  by code_simp+

text \<open>
  Claim C9. For every registered log filter \<open>getFilterLogs\<close> is claimed to run the log
  query over the stored \<^verbatim>\<open>fromBlock .. toBlock\<close> range, whatever the poll cursor is,
  with the heights hex-encoded and the sentinel \<^verbatim>\<open>"latest"\<close> resolved to a concrete
  height at query time, so that a filter from \<^verbatim>\<open>"earliest"\<close> to \<^verbatim>\<open>"latest"\<close> created
  at head 50 queries the range 0 to 50. \<open>getFilterLogs\<close> asks the node for no head and
  \<open>normalizeParamBlock\<close> leaves \<^verbatim>\<open>"latest"\<close> as it is: for that filter the one request
  sent is the log query with \<^verbatim>\<open>toBlock\<close> the string \<^verbatim>\<open>"latest"\<close>.
\<close>

theorem replay_passes_latest_through:
  "(let params = \<lparr>p_fromBlock = Str ''earliest'', p_toBlock = Str ''latest'', p_address = NoAddress, p_topics = None\<rparr>;
        s = fst (snd (newFilter params (sample_node ''0x32'') init));
        calls = snd (snd (getFilterLogs (Str ''0x1'') (sample_node ''0x32'') s))
    in calls = [CallGetFilterLogs \<lparr>q_fromBlock = Num 0, q_toBlock = Str ''latest'', q_address = None,
                                   q_addresses = None, q_topics = Some []\<rparr>] \<and>
       CallGetBlockNumber \<notin> set calls \<and>
       calls \<noteq> [CallGetFilterLogs \<lparr>q_fromBlock = Str ''0x0'', q_toBlock = Str ''0x32'', q_address = None,
                                   q_addresses = None, q_topics = Some []\<rparr>])"
proof -
  let ?params = "\<lparr>p_fromBlock = Str ''earliest'', p_toBlock = Str ''latest'', p_address = NoAddress, p_topics = None\<rparr>"
  let ?c = "\<lparr>c_fromBlock = Num 0, c_toBlock = Str ''latest'', c_addresses = None, c_topics = []\<rparr>"
  let ?entry = "\<lparr>ftype = Log, foptions = LogOptions ?c, fid = 1\<rparr>"
  let ?s = "fst (snd (newFilter ?params (sample_node ''0x32'') init))"
  have n: "normalizeFilter ?params = Inr ?c"
    by (simp add: normalizeFilter_def)
  note created = log_filter_created [OF n, of "''0x32''"]
  have f: "filters ?s (hexToInt (Str ''0x1'')) = Some ?entry"
    by (simp add: hex_examples created)
  have "snd (snd (getFilterLogs (Str ''0x1'') (sample_node ''0x32'') ?s)) =
      [CallGetFilterLogs \<lparr>q_fromBlock = Num 0, q_toBlock = Str ''latest'', q_address = None,
                          q_addresses = None, q_topics = Some []\<rparr>]"
    using f by (simp add: getFilterLogs_def normalizeParams_def normalizeParamBlock_def Let_def hex_examples)
  then show ?thesis
    unfolding Let_def by simp
qed

text \<open>
  Claim C9, as the code has it: for every registered log filter \<open>getFilterLogs\<close> sends
  one log query built from the stored \<^verbatim>\<open>fromBlock\<close> and \<^verbatim>\<open>toBlock\<close>, and its result
  and its request do not depend on the poll cursors; a stored height above 0 is passed
  hex-encoded (\<open>hexToInt\<close> reads it back), and the sentinel \<^verbatim>\<open>"latest"\<close> is passed on
  as that string, for the node to resolve; for an unknown id the call fails with
  \<^verbatim>\<open>no filter found\<close>.
\<close>

theorem replay_uses_stored_range:
  "(filters s (hexToInt i) = Some entry \<and> foptions entry = LogOptions c \<longrightarrow>
      (let q = \<lparr>q_fromBlock = normalizeParamBlock (c_fromBlock c),
                 q_toBlock = normalizeParamBlock (c_toBlock c),
                 q_address = c_addresses c, q_addresses = None,
                 q_topics = Some (c_topics c)\<rparr>
       in getFilterLogs i node s =
            (map_sum id Json (rpc_getFilterLogs node q), s, [CallGetFilterLogs q]) \<and>
          fst (getFilterLogs i node (s\<lparr>blockNumbers := cursors\<rparr>)) = fst (getFilterLogs i node s) \<and>
          snd (snd (getFilterLogs i node (s\<lparr>blockNumbers := cursors\<rparr>))) =
            snd (snd (getFilterLogs i node s)))) \<and>
   normalizeParamBlock (Str ''latest'') = Str ''latest'' \<and>
   (0 < n \<longrightarrow> normalizeParamBlock (Num n) = Str (''0x'' @ digits 16 (nat n)) \<and>
              hexToInt (normalizeParamBlock (Num n)) = Num n) \<and>
   (filters s (hexToInt j) = None \<longrightarrow>
      getFilterLogs j node s = (Inl (Error ''no filter found''), s, []))"
proof (intro conjI impI)
  assume a: "filters s (hexToInt i) = Some entry \<and> foptions entry = LogOptions c"
  then show "let q = \<lparr>q_fromBlock = normalizeParamBlock (c_fromBlock c),
                 q_toBlock = normalizeParamBlock (c_toBlock c),
                 q_address = c_addresses c, q_addresses = None,
                 q_topics = Some (c_topics c)\<rparr>
       in getFilterLogs i node s =
            (map_sum id Json (rpc_getFilterLogs node q), s, [CallGetFilterLogs q]) \<and>
          fst (getFilterLogs i node (s\<lparr>blockNumbers := cursors\<rparr>)) = fst (getFilterLogs i node s) \<and>
          snd (snd (getFilterLogs i node (s\<lparr>blockNumbers := cursors\<rparr>))) =
            snd (snd (getFilterLogs i node s))"
    by (simp add: getFilterLogs_def normalizeParams_def Let_def)
next
  show "normalizeParamBlock (Str ''latest'') = Str ''latest''"
    by (rule normalizeParamBlock_cases)
next
  assume "0 < n"
  then show "normalizeParamBlock (Num n) = Str (''0x'' @ digits 16 (nat n))"
    by (rule normalizeParamBlock_cases)
next
  assume "0 < n"
  then show "hexToInt (normalizeParamBlock (Num n)) = Num n"
    by (simp add: normalizeParamBlock_def hexToInt_intToHex)
next
  assume "filters s (hexToInt j) = None"
  then show "getFilterLogs j node s = (Inl (Error ''no filter found''), s, [])"
    by (simp add: getFilterLogs_def)
qed

theorem replay_uses_stored_range_witness:
  "(let params = \<lparr>p_fromBlock = Str ''0x32'', p_toBlock = Undefined, p_address = NoAddress, p_topics = None\<rparr>;
        s = fst (snd (newFilter params (sample_node ''0x64'') init));
        q = \<lparr>q_fromBlock = Str ''0x32'', q_toBlock = Str ''latest'', q_address = None,
             q_addresses = None, q_topics = Some []\<rparr>
    in getFilterLogs (Str ''0x1'') (sample_node ''0x64'') s =
         (Inr (Json [''log'']), s, [CallGetFilterLogs q]) \<and>
       hexToInt (normalizeParamBlock (Num 50)) = Num 50 \<and>
       getFilterLogs (Str ''0x2'') (sample_node ''0x64'') s = (Inl (Error ''no filter found''), s, []))"
proof -
  let ?params = "\<lparr>p_fromBlock = Str ''0x32'', p_toBlock = Undefined, p_address = NoAddress, p_topics = None\<rparr>"
  let ?c = "\<lparr>c_fromBlock = Num 50, c_toBlock = Str ''latest'', c_addresses = None, c_topics = []\<rparr>"
  let ?entry = "\<lparr>ftype = Log, foptions = LogOptions ?c, fid = 1\<rparr>"
  let ?s = "fst (snd (newFilter ?params (sample_node ''0x64'') init))"
  have n: "normalizeFilter ?params = Inr ?c"
    by (simp add: normalizeFilter_def)
  note created = log_filter_created [OF n, of "''0x64''"]
  have f: "filters ?s (hexToInt (Str ''0x1'')) = Some ?entry"
    by (simp add: hex_examples created)
  have d: "dom (filters ?s) = {Num 1}"
    by (simp add: newFilter_accepted [OF n])
  then have "Num 2 \<notin> dom (filters ?s)" by simp
  then have g: "filters ?s (hexToInt (Str ''0x2'')) = None"
    by (simp add: hex_examples_more dom_def)
  have pb: "normalizeParamBlock (Num 50) = Str ''0x32''"
    by (simp add: normalizeParamBlock_def hex_examples_more)
  note t = replay_uses_stored_range [of ?s "Str ''0x1''" ?entry ?c "sample_node ''0x64''"
      Map.empty 50 "Str ''0x2''"]
  have fo: "foptions ?entry = LogOptions ?c" by simp
  from t [THEN conjunct1, THEN mp, OF conjI [OF f fo]]
  have a: "getFilterLogs (Str ''0x1'') (sample_node ''0x64'') ?s =
      (Inr (Json [''log'']), ?s,
       [CallGetFilterLogs \<lparr>q_fromBlock = Str ''0x32'', q_toBlock = Str ''latest'', q_address = None,
                            q_addresses = None, q_topics = Some []\<rparr>])"
    by (simp add: Let_def pb normalizeParamBlock_cases(1))
  have pos: "0 < (50 :: int)" by simp
  from t [THEN conjunct2, THEN conjunct2, THEN conjunct1, THEN mp, OF pos]
  have b: "hexToInt (normalizeParamBlock (Num 50)) = Num 50"
    by (rule conjunct2)
  from t [THEN conjunct2, THEN conjunct2, THEN conjunct2, THEN mp, OF g]
  have c: "getFilterLogs (Str ''0x2'') (sample_node ''0x64'') ?s =
      (Inl (Error ''no filter found''), ?s, [])" .
  from a b c show ?thesis
    unfolding Let_def by (intro conjI)
qed

section \<open>Rejected options, idle polls and failed creations\<close>

text \<open>A block option without the prefix \<^verbatim>\<open>0x\<close> that is no sentinel is rejected before
  anything is installed; a poll with no new block asks for the head and nothing else; a
  creation whose head request fails leaves the filter installed and writes no cursor.\<close>

lemma newFilter_rejects_unprefixed:
  assumes "b \<noteq> ''latest''" "b \<noteq> ''pending''" "b \<noteq> ''earliest''" "take 2 b \<noteq> ''0x''"
    and "p_fromBlock params = Str b \<or>
         (\<exists>v. normalizeFilterBlock (p_fromBlock params) = Inr v) \<and> p_toBlock params = Str b"
  shows "newFilter params node s = (Inl (Error (''Invalid block option: '' @ b)), s, [])"
proof -
  have "normalizeFilterBlock (Str b) = Inl (Error (''Invalid block option: '' @ b))"
    using assms(1-4) by (simp add: normalizeFilterBlock_def)
  with assms(5) have "normalizeFilter params = Inl (Error (''Invalid block option: '' @ b))"
    by (auto simp: normalizeFilter_def)
  then show ?thesis by (rule newFilter_rejected)
qed

lemma idle_block_poll:
  assumes "filters s (hexToInt i) = Some entry" "ftype entry \<noteq> Log"
    and "blockNumbers s (Num (fid entry)) = Some c" "c \<noteq> []"
    and "rpc_getBlockNumber node = Inr h"
    and "hexToInt (Str c) = Num a" "hexToInt (Str h) = Num b" "b \<le> a"
  shows "getFilterChanges i node s = (Inr (Arr []), s, [CallGetBlockNumber])"
proof -
  have blocks: "getBlocksForFilter (Num (fid entry)) node s = (Inr [], s, [CallGetBlockNumber])"
    using getBlocksForFilter_Num [OF assms(3-7)] assms(8) by simp
  from assms(2) have "ftype entry = Block \<or> ftype entry = Tx"
    by (cases "ftype entry") simp_all
  then show ?thesis
    using getFilterChanges_Block [OF assms(1)] getFilterChanges_Tx [OF assms(1)] blocks
    by (auto simp: then_map_Inr)
qed

lemma idle_log_poll_latest:
  assumes "filters s (hexToInt i) = Some entry" "ftype entry = Log"
    and "filters s (Num (fid entry)) = Some entry'" "foptions entry' = LogOptions c"
    and "c_toBlock c = Str ''latest''"
    and "blockNumbers s (Num (fid entry)) = Some cur" "cur \<noteq> []"
    and "rpc_getBlockNumber node = Inr h"
    and "hexToInt (Str cur) = Num a" "hexToInt (Str h) = Num b" "b < a"
  shows "getFilterChanges i node s = (Inr (Arr []), s, [CallGetBlockNumber])"
  using getFilterChanges_Log [OF assms(1,2)]
    getLogFilterChanges_head [OF assms(3,4,6,7,8)] assms(5,9,10,11)
  by (simp add: Let_def)

lemma failed_creation:
  assumes "rpc_getBlockNumber node = Inl e"
  shows "created (installFilter ty opts s) node =
           (Inl e, snd (installFilter ty opts s), [CallGetBlockNumber])"
    and "filters (snd (installFilter ty opts s)) (Num (fst (installFilter ty opts s))) =
           Some \<lparr>ftype = ty, foptions = opts, fid = fst (installFilter ty opts s)\<rparr>"
    and "blockNumbers (snd (installFilter ty opts s)) = blockNumbers s"
    and "blockNumbers s (Num (fst (installFilter ty opts s))) = None \<Longrightarrow>
           \<exists>msg. fst (getFilterChanges (intToHex (Num (fst (installFilter ty opts s)))) node'
                        (snd (installFilter ty opts s))) = Inl (Error msg)"
proof -
  let ?s = "snd (installFilter ty opts s)"
  let ?entry = "\<lparr>ftype = ty, foptions = opts, fid = 1\<rparr>"
  show "created (installFilter ty opts s) node = (Inl e, ?s, [CallGetBlockNumber])"
    using assms by (simp add: created_def case_prod_unfold)
  show "filters ?s (Num (fst (installFilter ty opts s))) =
           Some \<lparr>ftype = ty, foptions = opts, fid = fst (installFilter ty opts s)\<rparr>"
    by simp
  show "blockNumbers ?s = blockNumbers s" by simp
  assume none: "blockNumbers s (Num (fst (installFilter ty opts s))) = None"
  have f: "filters ?s (hexToInt (Str ''0x1'')) = Some ?entry"
    by (simp add: hex_examples)
  have f1: "filters ?s (Num 1) = Some ?entry" by simp
  have c: "blockNumbers ?s (Num 1) = None" using none by simp
  have "\<exists>msg. fst (getFilterChanges (Str ''0x1'') node' ?s) = Inl (Error msg)"
  proof (cases ty)
    case Log
    then show ?thesis
      using getFilterChanges_Log [OF f] getLogFilterChanges_no_cursor [OF f1, of node'] c
      by simp
  next
    case Block
    then show ?thesis
      using getFilterChanges_Block [OF f] getBlocksForFilter_no_cursor [of ?s "Num 1" node'] c
      by (simp add: then_map_Inl)
  next
    case Tx
    then show ?thesis
      using getFilterChanges_Tx [OF f] getBlocksForFilter_no_cursor [of ?s "Num 1" node'] c
      by (simp add: then_map_Inl)
  qed
  then show "\<exists>msg. fst (getFilterChanges (intToHex (Num (fst (installFilter ty opts s)))) node' ?s)
      = Inl (Error msg)"
    by (simp add: hex_examples)
qed

end
